theory Spec2Isabelle
  imports Complex_Main "HOL-Library.Sublist" "HOL-Library.Code_Target_Numeral"
begin

section \<open>Python text primitives used by \<open>yt_download.py\<close>\<close>

text \<open>
  Python strings are modelled as lists of characters with code points below 256
  (Latin-1), which is what an Isabelle \<open>string\<close> holds. On that range the classes of the
  Unicode database that the script relies on are:
  \<^item> white space (\<open>str.strip()\<close>, \<open>str.isspace()\<close>): 9-13, 28-32, 133 and 160;
  \<^item> digits (\<open>str.isdigit()\<close>): the ASCII digits 48-57 and the superscript digits
    178, 179 and 185;
  \<^item> decimal digits (what \<open>int()\<close> accepts in base 10): the ASCII digits only.

  CPython's limit on the length of a decimal conversion (4300 digits by default from
  version 3.11 on) is not modelled.
\<close>

datatype exn = ValueError | OSError | EOFError | CalledProcessError | OverflowError | ZeroDivisionError

definition py_isspace :: "char \<Rightarrow> bool" where
  "py_isspace c =
     (let n = (of_char c :: nat)
      in (9 \<le> n \<and> n \<le> 13) \<or> (28 \<le> n \<and> n \<le> 32) \<or> n = 133 \<or> n = 160)"

definition py_isdecimal_char :: "char \<Rightarrow> bool" where
  "py_isdecimal_char c = (let n = (of_char c :: nat) in 48 \<le> n \<and> n \<le> 57)"

definition py_isdigit_char :: "char \<Rightarrow> bool" where
  "py_isdigit_char c =
     (let n = (of_char c :: nat)
      in (48 \<le> n \<and> n \<le> 57) \<or> n = 178 \<or> n = 179 \<or> n = 185)"

definition py_strip :: "string \<Rightarrow> string" where
  \<comment> \<open>\<open>s.strip()\<close>: leading and trailing white space removed.\<close>
  "py_strip s = rev (dropWhile py_isspace (rev (dropWhile py_isspace s)))"

definition py_isdigit :: "string \<Rightarrow> bool" where
  \<comment> \<open>\<open>s.isdigit()\<close>: at least one character, and every character is a digit.\<close>
  "py_isdigit s = (s \<noteq> [] \<and> list_all py_isdigit_char s)"

definition digit_value :: "char \<Rightarrow> int" where
  "digit_value c = int (of_char c) - 48"

definition py_int_str :: "string \<Rightarrow> exn + int" where
  \<comment> \<open>\<open>int(s)\<close> on the strings the script gives it, those that pass \<open>isdigit()\<close>:
      a string of decimal digits is read in base 10, any other digit raises ValueError.\<close>
  "py_int_str s =
     (if s \<noteq> [] \<and> list_all py_isdecimal_char s
      then Inr (foldl (\<lambda>a c. 10 * a + digit_value c) 0 s)
      else Inl ValueError)"

definition digit_char :: "nat \<Rightarrow> char" where
  "digit_char d = ''0123456789'' ! d"

fun str_nat :: "nat \<Rightarrow> string" where
  "str_nat n =
     (if n < 10 then [digit_char n]
      else str_nat (n div 10) @ [digit_char (n mod 10)])"

declare str_nat.simps [simp del]

definition py_str_int :: "int \<Rightarrow> string" where
  \<comment> \<open>\<open>str(i)\<close>, also \<open>f"{i}"\<close>: decimal, with a minus sign when negative.\<close>
  "py_str_int i = (if i < 0 then CHR ''-'' # str_nat (nat (- i)) else str_nat (nat i))"

definition py_lower_char :: "char \<Rightarrow> char" where
  "py_lower_char c =
     (let n = (of_char c :: nat)
      in if (65 \<le> n \<and> n \<le> 90) \<or> (192 \<le> n \<and> n \<le> 222 \<and> n \<noteq> 215)
         then char_of (n + 32) else c)"

definition py_lower :: "string \<Rightarrow> string" where
  "py_lower s = map py_lower_char s"


section \<open>Python numbers\<close>

text \<open>
  An \<open>int\<close> is an unbounded integer. A \<open>float\<close> is an IEEE 754 double, modelled by the
  real number it stands for: \<open>fl x\<close> is the double nearest to the real \<open>x\<close> (53 significant
  bits, ties to the even significand, gradual underflow below \<open>2^-1022\<close>), and a result
  overflows when it rounds to \<open>2^1024\<close> or beyond. Every float operation of the script is
  the exact operation followed by \<open>fl\<close>. Infinities and NaN are not values of the model:
  where one would arise, the model takes the branch the script takes next, which is
  always an exception (see each place).
\<close>

function bit_length :: "int \<Rightarrow> int" where
  \<comment> \<open>the number of binary digits of a positive integer\<close>
  "bit_length n = (if n \<le> 0 then 0 else 1 + bit_length (n div 2))"
  by pat_completeness auto
termination
  by (relation "measure nat") auto

declare bit_length.simps [simp del]

definition pow2 :: "int \<Rightarrow> real" where
  "pow2 k = (if 0 \<le> k then 2 ^ nat k else 1 / 2 ^ nat (- k))"

definition binary_exponent :: "real \<Rightarrow> int" where
  \<comment> \<open>the \<open>e\<close> with \<open>2^e \<le> |x| < 2^(e+1)\<close>, for \<open>x\<close> other than 0\<close>
  "binary_exponent x =
     (if 1 \<le> \<bar>x\<bar> then bit_length \<lfloor>\<bar>x\<bar>\<rfloor> - 1
      else - bit_length (\<lceil>1 / \<bar>x\<bar>\<rceil> - 1))"

definition round_half_even :: "real \<Rightarrow> int" where
  "round_half_even x =
     (let f = \<lfloor>x\<rfloor>; d = x - of_int f
      in if d < 1 / 2 then f else if 1 / 2 < d then f + 1 else if even f then f else f + 1)"

definition fl :: "real \<Rightarrow> real" where
  "fl x =
     (if x = 0 then 0
      else let q = pow2 (max (binary_exponent x - 52) (- 1074))
           in of_int (round_half_even (x / q)) * q)"

definition overflows :: "real \<Rightarrow> bool" where
  \<comment> \<open>\<open>x\<close> rounds to \<open>2^1024\<close> or beyond: half an ulp above the largest double\<close>
  "overflows x = (2 ^ 1024 - 2 ^ 970 \<le> \<bar>x\<bar>)"

text \<open>
  A number read from the metadata is an \<open>int\<close> or a \<open>float\<close>; \<open>PyFloat x\<close> is the float
  written \<open>x\<close>, that is the double nearest to \<open>x\<close>, and the infinity of the sign of \<open>x\<close>
  when \<open>x\<close> is beyond the range of the doubles. \<open>num_val\<close> is the value by which a number
  is compared with another and tested for zero; \<open>2^1024\<close> stands there for infinity,
  above every double.
\<close>

datatype pynum = PyInt int | PyFloat real

fun num_val :: "pynum \<Rightarrow> real" where
  "num_val (PyInt i) = of_int i"
| "num_val (PyFloat x) = (if overflows x then sgn x * 2 ^ 1024 else fl x)"

definition truthy :: "pynum \<Rightarrow> bool" where
  \<comment> \<open>the truth value of a number: it is not zero\<close>
  "truthy n = (num_val n \<noteq> 0)"

definition py_trunc :: "real \<Rightarrow> int" where
  \<comment> \<open>\<open>int(x)\<close> on a float: rounding towards zero.\<close>
  "py_trunc x = (if 0 \<le> x then \<lfloor>x\<rfloor> else \<lceil>x\<rceil>)"

definition int_true_div :: "int \<Rightarrow> int \<Rightarrow> exn + real" where
  \<comment> \<open>\<open>a / b\<close> on two ints: the quotient correctly rounded, OverflowError when it is too
      large for a float\<close>
  "int_true_div a b =
     (if b = 0 then Inl ZeroDivisionError
      else if overflows (of_int a / of_int b) then Inl OverflowError
      else Inr (fl (of_int a / of_int b)))"

fun to_float :: "pynum \<Rightarrow> exn + real" where
  \<comment> \<open>the float operand an arithmetic operation makes of a number; an int too large
      raises OverflowError. An infinite operand is met at line 87 only, where the result
      is infinite as well and \<open>int()\<close> raises OverflowError on it.\<close>
  "to_float (PyInt i) = (if overflows (of_int i) then Inl OverflowError else Inr (fl (of_int i)))"
| "to_float (PyFloat x) = (if overflows x then Inl OverflowError else Inr (fl x))"

fun py_mul :: "pynum \<Rightarrow> pynum \<Rightarrow> exn + pynum" where
  \<comment> \<open>\<open>a * b\<close>. A float product that overflows is \<open>inf\<close> in Python; the one expression that
      multiplies (line 87) hands it on to \<open>int()\<close>, which raises OverflowError on it: the
      model raises it at the product.\<close>
  "py_mul (PyInt i) (PyInt j) = Inr (PyInt (i * j))"
| "py_mul a b =
     (case to_float a of
        Inl e \<Rightarrow> Inl e
      | Inr x \<Rightarrow>
          (case to_float b of
             Inl e \<Rightarrow> Inl e
           | Inr y \<Rightarrow> if overflows (x * y) then Inl OverflowError else Inr (PyFloat (fl (x * y)))))"

fun py_true_div :: "pynum \<Rightarrow> pynum \<Rightarrow> exn + real" where
  \<comment> \<open>\<open>a / b\<close>, always a float. The divisors of the script are 8 and a non-zero int, so a
      float quotient never overflows; the test is there for the sake of totality.\<close>
  "py_true_div (PyInt i) (PyInt j) = int_true_div i j"
| "py_true_div a b =
     (case to_float a of
        Inl e \<Rightarrow> Inl e
      | Inr x \<Rightarrow>
          (case to_float b of
             Inl e \<Rightarrow> Inl e
           | Inr y \<Rightarrow>
               if y = 0 then Inl ZeroDivisionError
               else if overflows (x / y) then Inl OverflowError
               else Inr (fl (x / y))))"

text \<open>
  Floor division and remainder of two floats follow CPython's \<open>floatobject.c\<close>: the C
  function \<open>fmod\<close> is exact, the quotient is computed from it and snapped to a whole number.
\<close>

definition c_fmod :: "real \<Rightarrow> real \<Rightarrow> real" where
  "c_fmod vx wx = vx - wx * of_int (py_trunc (vx / wx))"

definition float_floordiv :: "real \<Rightarrow> real \<Rightarrow> real" where
  \<comment> \<open>\<open>vx // wx\<close>\<close>
  "float_floordiv vx wx =
     (let m = c_fmod vx wx;
          d = fl (fl (vx - m) / wx);
          d = (if m \<noteq> 0 \<and> (wx < 0) \<noteq> (m < 0) then fl (d - 1) else d)
      in if d \<noteq> 0
         then (let floordiv = of_int \<lfloor>d\<rfloor>
               in if d - floordiv > 1 / 2 then fl (floordiv + 1) else floordiv)
         else 0)"

definition float_mod :: "real \<Rightarrow> real \<Rightarrow> real" where
  \<comment> \<open>\<open>vx % wx\<close>\<close>
  "float_mod vx wx =
     (let m = c_fmod vx wx
      in if m \<noteq> 0 \<and> (wx < 0) \<noteq> (m < 0) then fl (m + wx) else m)"

text \<open>
  The format specifications \<open>.0f\<close> and \<open>.1f\<close> print the exact value of the double rounded
  to that many decimals, ties to the even digit, with the sign of the number.
\<close>

definition fmt_0f :: "real \<Rightarrow> string" where
  "fmt_0f x = (if x < 0 then ''-'' else []) @ str_nat (nat (round_half_even \<bar>x\<bar>))"

definition fmt_1f :: "real \<Rightarrow> string" where
  "fmt_1f x =
     (let n = nat (round_half_even (\<bar>x\<bar> * 10))
      in (if x < 0 then ''-'' else []) @ str_nat (n div 10) @ ''.'' @ [digit_char (n mod 10)])"


section \<open>Speed history store\<close>

text \<open>
  The file \<open>last_speed.txt\<close> is either missing, present but failing to open or decode
  (every such failure is an exception raised inside the \<open>try\<close> block), or present with
  a list of lines. Lines are kept without their terminator, which \<open>strip()\<close> removes
  anyway.
\<close>

datatype file_state = Missing | Unreadable | Content "string list"

datatype write_outcome = WriteOk | OpenFails | WriteFailsAfter nat

datatype log_msg =
    Failed_to_load_speeds_for_saving exn
  | Failed_to_save_speeds exn
  | Failed_to_load_speeds exn

definition MAX_SPEEDS :: nat where
  "MAX_SPEEDS = 10"

fun parse_lines :: "string list \<Rightarrow> exn + int list" where
  \<comment> \<open>\<open>[int(line.strip()) for line in f if line.strip().isdigit()]\<close>\<close>
  "parse_lines [] = Inr []"
| "parse_lines (line # rest) =
     (if py_isdigit (py_strip line)
      then (case py_int_str (py_strip line) of
              Inl e \<Rightarrow> Inl e
            | Inr v \<Rightarrow> (case parse_lines rest of Inl e \<Rightarrow> Inl e | Inr vs \<Rightarrow> Inr (v # vs)))
      else parse_lines rest)"

definition read_for_save :: "file_state \<Rightarrow> exn + int list" where
  \<comment> \<open>the body of the first \<open>try\<close> of \<open>save_last_speed\<close>\<close>
  "read_for_save fs =
     (case fs of Missing \<Rightarrow> Inr [] | Unreadable \<Rightarrow> Inl OSError | Content ls \<Rightarrow> parse_lines ls)"

definition py_last :: "nat \<Rightarrow> 'a list \<Rightarrow> 'a list" where
  \<comment> \<open>the slice \<open>xs[-n:]\<close> for \<open>n > 0\<close>\<close>
  "py_last n xs = drop (length xs - n) xs"

definition write_lines :: "file_state \<Rightarrow> write_outcome \<Rightarrow> string list \<Rightarrow> (exn + unit) \<times> file_state" where
  \<comment> \<open>\<open>open(..., "w")\<close> truncates the file; a failure after that leaves what was written.\<close>
  "write_lines fs wo ls =
     (case wo of
        WriteOk \<Rightarrow> (Inr (), Content ls)
      | OpenFails \<Rightarrow> (Inl OSError, fs)
      | WriteFailsAfter k \<Rightarrow> (Inl OSError, Content (take k ls)))"

definition save_last_speed ::
  "file_state \<Rightarrow> write_outcome \<Rightarrow> int \<Rightarrow> (exn + unit) \<times> file_state \<times> log_msg list" where
  "save_last_speed fs wo speed_bps =
     (let (speeds, log1) =
            (case read_for_save fs of
               Inl e \<Rightarrow> ([], [Failed_to_load_speeds_for_saving e])
             | Inr vs \<Rightarrow> (vs, []));
          speeds = speeds @ [speed_bps];
          speeds = py_last MAX_SPEEDS speeds
      in case write_lines fs wo (map py_str_int speeds) of
           (Inl e, fs') \<Rightarrow> (Inr (), fs', log1 @ [Failed_to_save_speeds e])
         | (Inr u, fs') \<Rightarrow> (Inr (), fs', log1))"

definition bin_speed_dynamic :: "int \<Rightarrow> real \<Rightarrow> int" where
  \<comment> \<open>\<open>avg_speed\<close> is a float; \<open>avg_speed * 0.05\<close> is the product of two doubles\<close>
  "bin_speed_dynamic speed avg_speed =
     (let min_bin = 50000;
          bin_size = max min_bin (py_trunc (fl (avg_speed * fl (1 / 20))))
      in (speed + bin_size div 2) div bin_size * bin_size)"

fun counter_add :: "'a \<Rightarrow> ('a \<times> nat) list \<Rightarrow> ('a \<times> nat) list" where
  "counter_add x [] = [(x, 1)]"
| "counter_add x ((y, n) # c) = (if x = y then (y, Suc n) # c else (y, n) # counter_add x c)"

definition Counter :: "'a list \<Rightarrow> ('a \<times> nat) list" where
  \<comment> \<open>\<open>collections.Counter(xs)\<close>: the counts, keys in the order they were first seen\<close>
  "Counter xs = foldl (\<lambda>c x. counter_add x c) [] xs"

fun most_common_1 :: "('a \<times> nat) list \<Rightarrow> ('a \<times> nat) option" where
  \<comment> \<open>\<open>counter.most_common(1)[0]\<close>: the first entry of greatest count\<close>
  "most_common_1 [] = None"
| "most_common_1 (p # ps) =
     (case most_common_1 ps of
        None \<Rightarrow> Some p
      | Some q \<Rightarrow> if snd p < snd q then Some q else Some p)"

definition representative :: "int list \<Rightarrow> exn + int option" where
  \<comment> \<open>lines 60 to 66 of \<open>load_last_speed\<close>, once the samples are read; \<open>sum(speeds) /
      len(speeds)\<close> divides two ints\<close>
  "representative speeds =
     (if speeds = [] then Inr None
      else (case int_true_div (sum_list speeds) (int (length speeds)) of
              Inl e \<Rightarrow> Inl e
            | Inr avg_speed \<Rightarrow>
                (let binned_speeds = map (\<lambda>s. bin_speed_dynamic s avg_speed) speeds
                 in Inr (map_option fst (most_common_1 (Counter binned_speeds))))))"

definition load_body :: "file_state \<Rightarrow> exn + int option" where
  \<comment> \<open>the body of the \<open>try\<close> of \<open>load_last_speed\<close>; \<open>Inl\<close> is an exception raised in it\<close>
  "load_body fs =
     (case fs of
        Missing \<Rightarrow> Inr None
      | Unreadable \<Rightarrow> Inl OSError
      | Content ls \<Rightarrow>
          (case parse_lines ls of
             Inl e \<Rightarrow> Inl e
           | Inr speeds \<Rightarrow> representative speeds))"

definition load_last_speed :: "file_state \<Rightarrow> (exn + int option) \<times> log_msg list" where
  \<comment> \<open>\<open>except Exception as e: print(...); return None\<close>\<close>
  "load_last_speed fs =
     (case load_body fs of
        Inl e \<Rightarrow> (Inr None, [Failed_to_load_speeds e])
      | Inr r \<Rightarrow> (Inr r, []))"

text \<open>
  A run of \<open>save_last_speed\<close> calls on a file system whose writes succeed, what is in the
  file afterwards, and the samples a later read gets from it.
\<close>

definition record_all :: "file_state \<Rightarrow> int list \<Rightarrow> file_state" where
  "record_all fs speeds = foldl (\<lambda>f s. fst (snd (save_last_speed f WriteOk s))) fs speeds"

definition stored_lines :: "file_state \<Rightarrow> string list" where
  "stored_lines fs = (case fs of Content ls \<Rightarrow> ls | _ \<Rightarrow> [])"

definition history :: "file_state \<Rightarrow> int list" where
  "history fs = (case read_for_save fs of Inr vs \<Rightarrow> vs | Inl e \<Rightarrow> [])"

text \<open>
  The representative speed in the words of the specification: the most frequent value of a
  list, the first one met winning a tie, and the multiple of a bin size nearest to a sample.
  \<open>spec_representative\<close> takes the mean and the bin size \<open>max(50000, 0.05*mean)\<close> as the
  specification writes them, exact and not cut to an integer.
\<close>

fun first_seen :: "'a list \<Rightarrow> 'a list" where
  "first_seen [] = []"
| "first_seen (x # xs) = x # filter (\<lambda>y. y \<noteq> x) (first_seen xs)"

definition most_frequent_first :: "'a list \<Rightarrow> 'a option" where
  "most_frequent_first xs =
     find (\<lambda>x. count_list xs x = Max (set (map (count_list xs) xs))) xs"

definition nearest_multiple :: "int \<Rightarrow> int \<Rightarrow> int" where
  "nearest_multiple b s = b * round (of_int s / of_int b :: real)"

definition spec_round_to_bin :: "real \<Rightarrow> int \<Rightarrow> real" where
  "spec_round_to_bin b s = b * of_int (round (of_int s / b))"

definition spec_representative :: "int list \<Rightarrow> real option" where
  "spec_representative speeds =
     most_frequent_first
       (map (spec_round_to_bin
               (max 50000 (of_int (sum_list speeds) / of_nat (length speeds) * (1 / 20))))
          speeds)"


section \<open>Format selector\<close>

text \<open>
  A stream descriptor is a dictionary read with \<open>f.get(key)\<close>, which gives \<open>None\<close> for a
  missing key as for a key bound to \<open>None\<close>: each field is an option. Only \<open>ext\<close> is read
  with a default, \<open>f.get('ext', '')\<close>, so its outer option says whether the key is there.
  Heights and sizes are ints; frame rate, bitrate (kbit/s) and duration are ints or floats.
\<close>

record format_info =
  vcodec :: "string option"
  height :: "int option"
  fps :: "pynum option"
  format_id :: "string option"
  ext :: "string option option"
  filesize :: "int option"
  filesize_approx :: "int option"
  tbr :: "pynum option"

text \<open>
  The dictionary stored in \<open>best_formats[h]\<close>, with its five keys. Its \<open>filesize\<close> is first
  the stream's own estimate, an int, and after line 119 the mean of the estimates, a float.
\<close>

record candidate =
  cand_format_id :: "string option"
  cand_fps :: pynum
  cand_ext :: "string option"
  cand_filesize :: "pynum option"
  cand_vcodec :: "string option"

definition estimate_size :: "format_info \<Rightarrow> pynum option \<Rightarrow> exn + int option" where
  \<comment> \<open>\<open>Inl\<close>: the exception \<open>int(duration_sec * tbr * 1000 / 8)\<close> raises\<close>
  "estimate_size format_info duration_sec =
     (case filesize format_info of
        Some v \<Rightarrow> Inr (Some v)
      | None \<Rightarrow>
          (case filesize_approx format_info of
             Some v \<Rightarrow> Inr (Some v)
           | None \<Rightarrow>
               (case (tbr format_info, duration_sec) of
                  (Some t, Some d) \<Rightarrow>
                    if truthy t \<and> truthy d
                    then (case py_mul d t of
                            Inl e \<Rightarrow> Inl e
                          | Inr p \<Rightarrow>
                              (case py_mul p (PyInt 1000) of
                                 Inl e \<Rightarrow> Inl e
                               | Inr q \<Rightarrow>
                                   (case py_true_div q (PyInt 8) of
                                      Inl e \<Rightarrow> Inl e
                                    | Inr r \<Rightarrow> Inr (Some (py_trunc r)))))
                    else Inr None
                | _ \<Rightarrow> Inr None)))"

definition spec_estimate_size :: "format_info \<Rightarrow> pynum option \<Rightarrow> real option" where
  \<comment> \<open>the fallback order in the words of the specification; \<open>tbr\<close> is in kbit/s, the
      bitrate is in bit/s\<close>
  "spec_estimate_size format_info duration_sec =
     (case filesize format_info of
        Some v \<Rightarrow> Some (of_int v)
      | None \<Rightarrow>
          (case filesize_approx format_info of
             Some v \<Rightarrow> Some (of_int v)
           | None \<Rightarrow>
               (case (tbr format_info, duration_sec) of
                  (Some t, Some duration) \<Rightarrow>
                    (let bitrate = num_val t * 1000 in Some (bitrate * num_val duration / 8))
                | _ \<Rightarrow> None)))"

definition targets :: "(string \<times> string) list" where
  "targets = [(''4320'', ''   8K''), (''2160'', ''   4K''), (''1440'', ''1440p''), (''1080'', ''1080p'')]"

definition py_str_height :: "int option \<Rightarrow> string" where
  \<comment> \<open>\<open>str(f.get('height'))\<close>\<close>
  "py_str_height h = (case h of None \<Rightarrow> ''None'' | Some i \<Rightarrow> py_str_int i)"

definition fps_or_0 :: "format_info \<Rightarrow> pynum" where
  \<comment> \<open>\<open>f.get('fps') or 0\<close>\<close>
  "fps_or_0 f = (case fps f of None \<Rightarrow> PyInt 0 | Some v \<Rightarrow> if truthy v then v else PyInt 0)"

definition new_best :: "format_info \<Rightarrow> int option \<Rightarrow> candidate" where
  \<comment> \<open>the dictionary built at lines 107 to 113\<close>
  "new_best f est_size =
     \<lparr> cand_format_id = format_id f,
       cand_fps = fps_or_0 f,
       cand_ext = (case ext f of None \<Rightarrow> Some [] | Some v \<Rightarrow> v),
       cand_filesize = map_option PyInt est_size,
       cand_vcodec = vcodec f \<rparr>"

text \<open>
  \<open>best_formats\<close> and \<open>size_estimates\<close> keep the key set they are created with, the four
  target heights. They are modelled as functions on strings, and \<open>h in best_formats\<close> is
  membership in that key set.
\<close>

type_synonym scan_state = "(string \<Rightarrow> candidate option) \<times> (string \<Rightarrow> int list)"

definition scan_step :: "pynum option \<Rightarrow> scan_state \<Rightarrow> format_info \<Rightarrow> exn + scan_state" where
  \<comment> \<open>the body of the loop at lines 95 to 113\<close>
  "scan_step duration_sec st f =
     (let (best_formats, size_estimates) = st
      in if vcodec f = Some ''none'' then Inr st
         else let h = py_str_height (height f)
              in if h \<in> set (map fst targets)
                 then (case estimate_size f duration_sec of
                         Inl e \<Rightarrow> Inl e
                       | Inr est_size \<Rightarrow>
                           (let size_estimates =
                                  (case est_size of
                                     None \<Rightarrow> size_estimates
                                   | Some e \<Rightarrow> size_estimates (h := size_estimates h @ [e]));
                                bf = best_formats h
                            in if bf = None \<or> num_val (fps_or_0 f) > num_val (cand_fps (the bf))
                               then Inr (best_formats (h := Some (new_best f est_size)),
                                         size_estimates)
                               else Inr (best_formats, size_estimates)))
                 else Inr st)"

fun scan :: "pynum option \<Rightarrow> format_info list \<Rightarrow> scan_state \<Rightarrow> exn + scan_state" where
  \<comment> \<open>the loop at lines 95 to 113\<close>
  "scan duration_sec [] st = Inr st"
| "scan duration_sec (f # formats) st =
     (case scan_step duration_sec st f of
        Inl e \<Rightarrow> Inl e
      | Inr st' \<Rightarrow> scan duration_sec formats st')"

definition average_step ::
  "(string \<Rightarrow> int list) \<Rightarrow> (string \<Rightarrow> candidate option) \<Rightarrow> string \<Rightarrow>
   exn + (string \<Rightarrow> candidate option)" where
  \<comment> \<open>the body of the loop at lines 115 to 119; \<open>sum(...) / len(...)\<close> divides two ints\<close>
  "average_step size_estimates best_formats res =
     (if size_estimates res \<noteq> []
      then (case int_true_div (sum_list (size_estimates res)) (int (length (size_estimates res))) of
              Inl e \<Rightarrow> Inl e
            | Inr avg_size \<Rightarrow>
                (case best_formats res of
                   Some c \<Rightarrow>
                     Inr (best_formats (res := Some (c\<lparr>cand_filesize := Some (PyFloat avg_size)\<rparr>)))
                 | None \<Rightarrow> Inr best_formats))
      else Inr best_formats)"

fun average ::
  "(string \<Rightarrow> int list) \<Rightarrow> string list \<Rightarrow> (string \<Rightarrow> candidate option) \<Rightarrow>
   exn + (string \<Rightarrow> candidate option)" where
  \<comment> \<open>the loop at lines 115 to 119\<close>
  "average size_estimates [] best_formats = Inr best_formats"
| "average size_estimates (res # rest) best_formats =
     (case average_step size_estimates best_formats res of
        Inl e \<Rightarrow> Inl e
      | Inr best_formats' \<Rightarrow> average size_estimates rest best_formats')"

definition best_formats_table ::
  "format_info list \<Rightarrow> pynum option \<Rightarrow> exn + (string \<Rightarrow> candidate option)" where
  \<comment> \<open>\<open>best_formats\<close> as it is at line 120, after both loops\<close>
  "best_formats_table formats duration_sec =
     (case scan duration_sec formats (\<lambda>res. None, \<lambda>res. []) of
        Inl e \<Rightarrow> Inl e
      | Inr (best_formats, size_estimates) \<Rightarrow>
          average size_estimates (map fst targets) best_formats)"

fun sizeof_units :: "real \<Rightarrow> string list \<Rightarrow> string" where
  \<comment> \<open>the loop of \<open>sizeof_fmt\<close>, with the suffix \<open>B\<close>\<close>
  "sizeof_units num [] = fmt_1f num @ ''Y'' @ ''B''"
| "sizeof_units num (unit # units) =
     (if \<bar>num\<bar> < 1024 then fmt_1f num @ unit @ ''B''
      else sizeof_units (fl (num / 1024)) units)"

definition sizeof_fmt :: "pynum option \<Rightarrow> exn + string" where
  \<comment> \<open>an int is compared as it is and becomes a float when it is divided or printed\<close>
  "sizeof_fmt num =
     (case num of
        None \<Rightarrow> Inr ''N/A''
      | Some n \<Rightarrow>
          (case to_float n of
             Inl e \<Rightarrow> Inl e
           | Inr x \<Rightarrow> Inr (sizeof_units x [[], ''K'', ''M'', ''G'', ''T'', ''P''])))"

definition fmt_fps :: "pynum \<Rightarrow> exn + string" where
  \<comment> \<open>\<open>f"{fmt['fps']:.0f}"\<close>: the format makes a float of an int\<close>
  "fmt_fps n =
     (case n of
        PyInt i \<Rightarrow> if overflows (of_int i) then Inl OverflowError else Inr (fmt_0f (fl (of_int i)))
      | PyFloat x \<Rightarrow>
          if overflows x then Inr (if x < 0 then ''-inf'' else ''inf'') else Inr (fmt_0f (fl x)))"

definition fmt_min_sec :: "real \<Rightarrow> string" where
  \<comment> \<open>\<open>f"{int(t // 60)}m {int(t % 60)}s"\<close>\<close>
  "fmt_min_sec t =
     py_str_int (py_trunc (float_floordiv t 60)) @ ''m '' @
     py_str_int (py_trunc (float_mod t 60)) @ ''s''"

definition time_estimate_strs :: "pynum option \<Rightarrow> int option \<Rightarrow> exn + string \<times> string" where
  \<comment> \<open>lines 127 to 137. A product \<open>(size / speed) * 1.5\<close> that overflows is \<open>inf\<close>;
      \<open>inf // 60\<close> is NaN, on which \<open>int()\<close> raises ValueError.\<close>
  "time_estimate_strs size_bytes download_speed_bps =
     (case (size_bytes, download_speed_bps) of
        (Some sz, Some sp) \<Rightarrow>
          if truthy sz \<and> sp \<noteq> 0
          then (case py_true_div sz (PyInt sp) of
                  Inl e \<Rightarrow> Inl e
                | Inr ratio \<Rightarrow>
                    if overflows (ratio * (3 / 2)) then Inl ValueError
                    else (let est_sec_s = fl (ratio * (3 / 2));
                              est_sec_f = fl (ratio / (3 / 2))
                          in Inr (fmt_min_sec est_sec_s, fmt_min_sec est_sec_f)))
          else Inr (''N/A'', ''N/A'')
      | _ \<Rightarrow> Inr (''N/A'', ''N/A''))"

text \<open>
  What the function prints and asks. \<open>Row i name fps size slow fast\<close> is the line
  \<open>f"  {i}. {name}{fps} | {size} | {slow} - {fast})"\<close> of an available resolution, with
  the frame rate, the size and the two times as they are printed.
\<close>

datatype menu_event =
    Select_video_resolution
  | Row nat string string string string string
  | Row_not_available nat string
  | Enter_resolution_choice
  | That_resolution_is_not_available
  | Invalid_choice

definition menu_row ::
  "int option \<Rightarrow> (string \<Rightarrow> candidate option) \<Rightarrow> nat \<times> string \<times> string \<Rightarrow> exn + menu_event" where
  \<comment> \<open>the body of the loop at lines 122 to 140\<close>
  "menu_row download_speed_bps best_formats entry =
     (let (i, res, name) = entry
      in case best_formats res of
           Some fmt \<Rightarrow>
             (case sizeof_fmt (cand_filesize fmt) of
                Inl e \<Rightarrow> Inl e
              | Inr size_str \<Rightarrow>
                  (case time_estimate_strs (cand_filesize fmt) download_speed_bps of
                     Inl e \<Rightarrow> Inl e
                   | Inr (est_time_str_s, est_time_str_f) \<Rightarrow>
                       (case fmt_fps (cand_fps fmt) of
                          Inl e \<Rightarrow> Inl e
                        | Inr fps_str \<Rightarrow>
                            Inr (Row i name fps_str size_str est_time_str_s est_time_str_f))))
         | None \<Rightarrow> Inr (Row_not_available i name))"

fun print_rows ::
  "int option \<Rightarrow> (string \<Rightarrow> candidate option) \<Rightarrow> (nat \<times> string \<times> string) list \<Rightarrow>
   menu_event list \<times> exn option" where
  \<comment> \<open>the loop at lines 122 to 140: the lines printed, and the exception that ended it\<close>
  "print_rows download_speed_bps best_formats [] = ([], None)"
| "print_rows download_speed_bps best_formats (entry # entries) =
     (case menu_row download_speed_bps best_formats entry of
        Inl e \<Rightarrow> ([], Some e)
      | Inr row \<Rightarrow>
          (let (rows, r) = print_rows download_speed_bps best_formats entries
           in (row # rows, r)))"

definition menu ::
  "int option \<Rightarrow> (string \<Rightarrow> candidate option) \<Rightarrow> menu_event list \<times> exn option" where
  \<comment> \<open>\<open>enumerate(targets, 1)\<close>\<close>
  "menu download_speed_bps best_formats =
     print_rows download_speed_bps best_formats
       (zip [1 ..< Suc (length targets)] targets)"

fun choice_loop ::
  "(string \<Rightarrow> candidate option) \<Rightarrow> string list \<Rightarrow> menu_event list \<times> (exn + candidate)" where
  \<comment> \<open>the loop at lines 142 to 151 on the lines the user types; \<open>input()\<close> raises EOFError
      when there is none left\<close>
  "choice_loop best_formats [] = ([Enter_resolution_choice], Inl EOFError)"
| "choice_loop best_formats (line # rest) =
     (let choice = py_strip line
      in if choice \<in> set [''1'', ''2'', ''3'', ''4'']
         then (case py_int_str choice of
                 Inl e \<Rightarrow> ([Enter_resolution_choice], Inl e)
               | Inr n \<Rightarrow>
                   (case best_formats (fst (targets ! nat (n - 1))) of
                      Some c \<Rightarrow> ([Enter_resolution_choice], Inr c)
                    | None \<Rightarrow>
                        (let (evs, r) = choice_loop best_formats rest
                         in (Enter_resolution_choice # That_resolution_is_not_available # evs, r))))
         else (let (evs, r) = choice_loop best_formats rest
               in (Enter_resolution_choice # Invalid_choice # evs, r)))"

definition pick_video_format ::
  "format_info list \<Rightarrow> pynum option \<Rightarrow> int option \<Rightarrow> string list \<Rightarrow>
   menu_event list \<times> (exn + candidate)" where
  "pick_video_format formats duration_sec download_speed_bps typed =
     (case best_formats_table formats duration_sec of
        Inl e \<Rightarrow> ([], Inl e)
      | Inr best_formats \<Rightarrow>
          (case menu download_speed_bps best_formats of
             (rows, Some e) \<Rightarrow> (Select_video_resolution # rows, Inl e)
           | (rows, None) \<Rightarrow>
               (let (evs, r) = choice_loop best_formats typed
                in (Select_video_resolution # rows @ evs, r))))"

text \<open>Parts of a printed line, and what lines 105 to 113 leave in \<open>best_formats[h]\<close>.\<close>

fun row_size :: "menu_event \<Rightarrow> string option" where
  "row_size (Row i name r sz slow fast) = Some sz"
| "row_size _ = None"

fun time_estimates :: "menu_event \<Rightarrow> (string \<times> string) option" where
  "time_estimates (Row i name r sz slow fast) = Some (slow, fast)"
| "time_estimates _ = None"

definition better :: "candidate option \<Rightarrow> format_info \<times> int option \<Rightarrow> candidate option" where
  "better bf fe =
     (if bf = None \<or> num_val (fps_or_0 (fst fe)) > num_val (cand_fps (the bf))
      then Some (new_best (fst fe) (snd fe)) else bf)"

text \<open>
  A list of streams to run the selector on: one at 720p, four video streams at 1080p (one
  without frame rate, two at 30 frames per second, one at 25 without any size), an audio
  stream that carries a height, and one at 2160p whose size has to be computed from its
  bitrate.
\<close>

definition example_formats :: "format_info list" where
  "example_formats =
     [\<lparr>vcodec = Some ''avc1'', height = Some 720, fps = Some (PyInt 120), format_id = Some ''136'',
       ext = Some (Some ''mp4''), filesize = Some 5000000, filesize_approx = None, tbr = None\<rparr>,
      \<lparr>vcodec = Some ''av01'', height = Some 1080, fps = None, format_id = Some ''399'',
       ext = Some (Some ''mp4''), filesize = Some 1000000, filesize_approx = None, tbr = None\<rparr>,
      \<lparr>vcodec = Some ''vp9'', height = Some 1080, fps = Some (PyInt 30), format_id = Some ''248'',
       ext = Some (Some ''webm''), filesize = None, filesize_approx = Some 1900000,
       tbr = Some (PyInt 99)\<rparr>,
      \<lparr>vcodec = Some ''avc1'', height = Some 1080, fps = Some (PyFloat 30), format_id = Some ''137'',
       ext = None, filesize = Some 2000000, filesize_approx = Some 7, tbr = None\<rparr>,
      \<lparr>vcodec = Some ''none'', height = Some 1080, fps = Some (PyInt 999), format_id = Some ''140'',
       ext = Some (Some ''m4a''), filesize = Some 123, filesize_approx = None, tbr = None\<rparr>,
      \<lparr>vcodec = Some ''vp9'', height = Some 2160, fps = Some (PyFloat (5994 / 100)),
       format_id = Some ''315'', ext = Some (Some ''webm''), filesize = None,
       filesize_approx = None, tbr = Some (PyFloat (176346 / 100))\<rparr>,
      \<lparr>vcodec = None, height = Some 1080, fps = Some (PyInt 25), format_id = Some ''x'',
       ext = Some None, filesize = None, filesize_approx = None, tbr = None\<rparr>]"


section \<open>Merge strategy\<close>

text \<open>
  The environment of \<open>merge_video_audio\<close>: the output lines of the two capability listings
  and of the codec probe (or the exception \<open>check_output\<close> raised), the line the user types
  at the prompt, what a launched command ends with (\<open>None\<close> for exit status 0), what
  \<open>os.path.getsize\<close> gives for each of the two input files (the size, or the exception it
  raises), and the paths of the two executables.
  The thread that prints the ETA while the encoder runs only reads the output file's size
  and writes to the console; its start and its join are events, its lines are not.
\<close>

record merge_env =
  encoders_out :: "exn + string list"
  decoders_out :: "exn + string list"
  probe_out :: "exn + string"
  typed_answer :: "exn + string"
  run_result :: "string list \<Rightarrow> exn option"
  video_size :: "exn + nat"
  audio_size :: "exn + nat"
  FFMPEG_PATH :: string
  FFPROBE_PATH :: string

datatype merge_event =
    Failed_to_detect_GPU_support exn
  | GPU_friendly_codec_remuxing
  | Run "string list"
  | Ask_reencode_with_GPU
  | Aborting_merge
  | GPU_encoding_not_available_using_CPU
  | Merging_using bool
  | Eta_thread_started nat
  | Eta_thread_joined
  | Merge_completed

fun py_contains :: "string \<Rightarrow> string \<Rightarrow> bool" where
  \<comment> \<open>\<open>sub in s\<close>\<close>
  "py_contains sub [] = (sub = [])"
| "py_contains sub (c # cs) = (prefix sub (c # cs) \<or> py_contains sub cs)"

definition gpu_supports_nvenc_nvdec :: "merge_env \<Rightarrow> (bool \<times> bool) \<times> merge_event list" where
  "gpu_supports_nvenc_nvdec env =
     (case encoders_out env of
        Inl e \<Rightarrow> ((False, False), [Failed_to_detect_GPU_support e])
      | Inr out1 \<Rightarrow>
          (let nvenc = list_ex (py_contains ''nvenc'') out1
           in case decoders_out env of
                Inl e \<Rightarrow> ((nvenc, False), [Failed_to_detect_GPU_support e])
              | Inr out2 \<Rightarrow>
                  ((nvenc,
                    list_ex (\<lambda>line. py_contains ''nvdec'' line \<or> py_contains ''cuvid'' line) out2),
                   [])))"

definition reencode ::
  "merge_env \<Rightarrow> bool \<Rightarrow> string \<Rightarrow> string \<Rightarrow> string \<Rightarrow> string \<Rightarrow> merge_event list \<times> (exn + unit)" where
  \<comment> \<open>lines 198 to 226\<close>
  "reencode env nvenc video_codec video_path audio_path output_path =
     (case video_size env of
        Inl e \<Rightarrow> ([Merging_using nvenc], Inl e)
      | Inr vs \<Rightarrow>
          (case audio_size env of
             Inl e \<Rightarrow> ([Merging_using nvenc], Inl e)
           | Inr as \<Rightarrow>
               (let total_size_est = vs + as;
                    cmd = [FFMPEG_PATH env, ''-y'', ''-i'', video_path, ''-i'', audio_path,
                           ''-c:v'', video_codec, ''-preset'', ''p1'', ''-c:a'', ''aac'', output_path]
                in case run_result env cmd of
                     Some e \<Rightarrow>
                       ([Merging_using nvenc, Eta_thread_started total_size_est, Run cmd], Inl e)
                   | None \<Rightarrow>
                       ([Merging_using nvenc, Eta_thread_started total_size_est, Run cmd,
                         Eta_thread_joined, Merge_completed], Inr ()))))"

definition probe_video_codec :: "merge_env \<Rightarrow> string option" where
  \<comment> \<open>lines 174 to 179: the probe's output stripped, \<open>None\<close> when the probe raises\<close>
  "probe_video_codec env =
     (case probe_out env of Inl e \<Rightarrow> None | Inr out \<Rightarrow> Some (py_strip out))"

definition merge_video_audio ::
  "merge_env \<Rightarrow> string \<Rightarrow> string \<Rightarrow> string \<Rightarrow> merge_event list \<times> (exn + unit)" where
  "merge_video_audio env video_path audio_path output_path =
     (let ((nvenc, nvdec), evs0) = gpu_supports_nvenc_nvdec env;
          codec_name = probe_video_codec env
      in if nvenc \<and> codec_name \<in> set [Some ''h264'', Some ''hevc'']
         then (let cmd = [FFMPEG_PATH env, ''-y'', ''-i'', video_path, ''-i'', audio_path,
                          ''-c'', ''copy'', output_path]
               in (evs0 @ [GPU_friendly_codec_remuxing, Run cmd],
                   case run_result env cmd of Some e \<Rightarrow> Inl e | None \<Rightarrow> Inr ()))
         else if nvenc
         then (case typed_answer env of
                 Inl e \<Rightarrow> (evs0 @ [Ask_reencode_with_GPU], Inl e)
               | Inr line \<Rightarrow>
                   (let choice = py_lower (py_strip line)
                    in if choice \<noteq> ''y''
                       then (evs0 @ [Ask_reencode_with_GPU, Aborting_merge], Inr ())
                       else (let (evs, r) = reencode env nvenc ''h264_nvenc''
                                              video_path audio_path output_path
                             in (evs0 @ [Ask_reencode_with_GPU] @ evs, r))))
         else (let (evs, r) = reencode env nvenc ''libx264'' video_path audio_path output_path
               in (evs0 @ [GPU_encoding_not_available_using_CPU] @ evs, r)))"

fun is_run :: "merge_event \<Rightarrow> bool" where
  "is_run (Run cmd) = True"
| "is_run _ = False"


section \<open>Renaming the output directory\<close>

text \<open>
  \<open>rename_folder\<close> works on the host's file system through \<open>os.listdir\<close>,
  \<open>os.path.exists\<close> and \<open>os.rename\<close>, and on paths through \<open>os.path.splitext\<close>,
  \<open>os.path.dirname\<close> and \<open>os.path.join\<close>. These belong to the platform, not to the
  script: they are parameters, over any type of file-system states.
\<close>

record 'fs os_ops =
  os_listdir :: "'fs \<Rightarrow> string \<Rightarrow> exn + string list"
  os_path_exists :: "'fs \<Rightarrow> string \<Rightarrow> bool"
  os_rename :: "'fs \<Rightarrow> string \<Rightarrow> string \<Rightarrow> exn + 'fs"
  os_path_splitext :: "string \<Rightarrow> string \<times> string"
  os_path_dirname :: "string \<Rightarrow> string"
  os_path_join :: "string \<Rightarrow> string \<Rightarrow> string"

datatype rename_event =
    No_mp4_or_wav_output_found
  | Target_folder_name_already_exists string
  | Renamed_folder_to string

definition candidates_of :: "string list \<Rightarrow> string list" where
  \<comment> \<open>line 282: the mp4 files, or the wav files when there is no mp4 file\<close>
  "candidates_of files =
     (let mp4 = filter (\<lambda>f. suffix ''.mp4'' (py_lower f)) files
      in if mp4 \<noteq> [] then mp4 else filter (\<lambda>f. suffix ''.wav'' (py_lower f)) files)"

definition rename_folder ::
  "'fs os_ops \<Rightarrow> 'fs \<Rightarrow> string \<Rightarrow> (exn + unit) \<times> 'fs \<times> rename_event list" where
  "rename_folder os fs target_dir =
     (case os_listdir os fs target_dir of
        Inl e \<Rightarrow> (Inl e, fs, [])
      | Inr files \<Rightarrow>
          (case candidates_of files of
             [] \<Rightarrow> (Inr (), fs, [No_mp4_or_wav_output_found])
           | first # others \<Rightarrow>
               (let base_name = fst (os_path_splitext os first);
                    parent_dir = os_path_dirname os target_dir;
                    new_folder_path = os_path_join os parent_dir base_name
                in if os_path_exists os fs new_folder_path
                   then (Inr (), fs, [Target_folder_name_already_exists base_name])
                   else (case os_rename os fs target_dir new_folder_path of
                           Inl e \<Rightarrow> (Inl e, fs, [])
                         | Inr fs' \<Rightarrow> (Inr (), fs', [Renamed_folder_to new_folder_path])))))"

text \<open>
  A small file system to run \<open>rename_folder\<close> on: the directories that exist, each with
  the names in it, and paths with \<open>/\<close> as separator.
\<close>

definition toy_splitext :: "string \<Rightarrow> string \<times> string" where
  "toy_splitext p =
     (if CHR ''.'' \<in> set p
      then (rev (tl (dropWhile (\<lambda>c. c \<noteq> CHR ''.'') (rev p))),
            CHR ''.'' # rev (takeWhile (\<lambda>c. c \<noteq> CHR ''.'') (rev p)))
      else (p, []))"

definition toy_dirname :: "string \<Rightarrow> string" where
  "toy_dirname p = rev (tl (dropWhile (\<lambda>c. c \<noteq> CHR ''/'') (rev p)))"

definition toy_os :: "((string \<times> string list) list) os_ops" where
  "toy_os =
     \<lparr> os_listdir = (\<lambda>fs p. case map_of fs p of None \<Rightarrow> Inl OSError | Some names \<Rightarrow> Inr names),
       os_path_exists = (\<lambda>fs p. map_of fs p \<noteq> None),
       os_rename = (\<lambda>fs p q. if map_of fs p = None \<or> map_of fs q \<noteq> None then Inl OSError
                              else Inr (map (\<lambda>(d, names). (if d = p then q else d, names)) fs)),
       os_path_splitext = toy_splitext,
       os_path_dirname = toy_dirname,
       os_path_join = (\<lambda>a b. a @ ''/'' @ b) \<rparr>"


section \<open>Properties of the speed history store\<close>

lemma digit_char_code: "d < 10 \<Longrightarrow> of_char (digit_char d) = 48 + d"
proof -
  assume "d < 10"
  then have "d = 0 \<or> d = 1 \<or> d = 2 \<or> d = 3 \<or> d = 4 \<or> d = 5 \<or> d = 6 \<or> d = 7
    \<or> d = 8 \<or> d = 9"
    by arith
  then show ?thesis
    by (elim disjE) (simp_all add: digit_char_def)
qed

lemma digit_char_decimal: "d < 10 \<Longrightarrow> py_isdecimal_char (digit_char d)"
  by (simp add: py_isdecimal_char_def digit_char_code)

lemma digit_char_value: "d < 10 \<Longrightarrow> digit_value (digit_char d) = int d"
  by (simp add: digit_value_def digit_char_code)

lemma str_nat_decimal: "list_all py_isdecimal_char (str_nat n)"
proof (induction n rule: str_nat.induct)
  case (1 n)
  show ?case
  proof (cases "n < 10")
    case True
    then show ?thesis
      by (subst str_nat.simps) (simp add: digit_char_decimal)
  next
    case False
    with 1 show ?thesis
      by (subst str_nat.simps) (simp add: digit_char_decimal)
  qed
qed

lemma str_nat_nonempty: "str_nat n \<noteq> []"
  by (subst str_nat.simps) simp

lemma str_nat_value: "foldl (\<lambda>a c. 10 * a + digit_value c) 0 (str_nat n) = int n"
proof (induction n rule: str_nat.induct)
  case (1 n)
  show ?case
  proof (cases "n < 10")
    case True
    then show ?thesis
      by (subst str_nat.simps) (simp add: digit_char_value)
  next
    case False
    have "int n = 10 * int (n div 10) + int (n mod 10)"
      by (simp add: zdiv_int zmod_int)
    with False 1 show ?thesis
      by (subst str_nat.simps) (simp add: digit_char_value)
  qed
qed

lemma decimal_not_space: "py_isdecimal_char c \<Longrightarrow> \<not> py_isspace c"
  by (auto simp: py_isdecimal_char_def py_isspace_def Let_def)

lemma decimal_is_digit: "py_isdecimal_char c \<Longrightarrow> py_isdigit_char c"
  by (auto simp: py_isdecimal_char_def py_isdigit_char_def Let_def)

lemma py_strip_id:
  assumes "s \<noteq> []" "\<not> py_isspace (hd s)" "\<not> py_isspace (last s)"
  shows "py_strip s = s"
proof -
  from assms have 1: "dropWhile py_isspace s = s"
    by (cases s) auto
  from assms have 2: "dropWhile py_isspace (rev s) = rev s"
    by (cases "rev s") (auto simp: hd_rev)
  show ?thesis by (simp add: py_strip_def 1 2)
qed

lemma py_strip_str_nat: "py_strip (str_nat n) = str_nat n"
proof (rule py_strip_id)
  show "str_nat n \<noteq> []" by (rule str_nat_nonempty)
  have "hd (str_nat n) \<in> set (str_nat n)" "last (str_nat n) \<in> set (str_nat n)"
    using str_nat_nonempty by auto
  then have "py_isdecimal_char (hd (str_nat n))" "py_isdecimal_char (last (str_nat n))"
    using str_nat_decimal [of n] by (auto simp: list_all_iff)
  then show "\<not> py_isspace (hd (str_nat n))" "\<not> py_isspace (last (str_nat n))"
    by (auto dest: decimal_not_space)
qed

lemma py_isdigit_str_nat: "py_isdigit (str_nat n)"
  using str_nat_decimal [of n] str_nat_nonempty [of n]
  by (auto simp: py_isdigit_def list_all_iff dest: decimal_is_digit)

lemma py_int_str_str_nat: "py_int_str (str_nat n) = Inr (int n)"
  by (simp add: py_int_str_def str_nat_decimal str_nat_nonempty str_nat_value)

lemma strip_negative: "py_strip (CHR ''-'' # str_nat n) = CHR ''-'' # str_nat n"
proof (rule py_strip_id)
  show "CHR ''-'' # str_nat n \<noteq> []" by simp
  show "\<not> py_isspace (hd (CHR ''-'' # str_nat n))" by (simp add: py_isspace_def)
  have "last (str_nat n) \<in> set (str_nat n)"
    using str_nat_nonempty by auto
  then have "py_isdecimal_char (last (str_nat n))"
    using str_nat_decimal [of n] by (auto simp: list_all_iff)
  then show "\<not> py_isspace (last (CHR ''-'' # str_nat n))"
    using str_nat_nonempty [of n] by (auto dest: decimal_not_space)
qed

lemma parse_line_nonneg:
  "0 \<le> s \<Longrightarrow> parse_lines (py_str_int s # rest) =
     (case parse_lines rest of Inl e \<Rightarrow> Inl e | Inr vs \<Rightarrow> Inr (s # vs))"
  by (simp add: py_str_int_def py_strip_str_nat py_isdigit_str_nat py_int_str_str_nat)

lemma parse_line_negative:
  "s < 0 \<Longrightarrow> parse_lines (py_str_int s # rest) = parse_lines rest"
  by (simp add: py_str_int_def strip_negative py_isdigit_def py_isdigit_char_def)

lemma parse_lines_written:
  "parse_lines (map py_str_int xs) = Inr (filter (\<lambda>s. 0 \<le> s) xs)"
proof (induction xs)
  case Nil
  then show ?case by simp
next
  case (Cons s xs)
  then show ?case
    by (cases "0 \<le> s") (simp_all add: parse_line_nonneg parse_line_negative del: parse_lines.simps)
qed

lemma py_last_append: "py_last n (py_last n ys @ xs) = py_last n (ys @ xs)"
  by (cases "n \<le> length ys") (simp_all add: py_last_def ac_simps)

lemma filter_nonneg_id: "\<forall>s\<in>set xs. (0::int) \<le> s \<Longrightarrow> filter (\<lambda>s. 0 \<le> s) xs = xs"
  by (induction xs) auto

lemma save_on_written:
  assumes "\<forall>s\<in>set ys. 0 \<le> s"
  shows "save_last_speed (Content (map py_str_int ys)) WriteOk s =
           (Inr (), Content (map py_str_int (py_last MAX_SPEEDS (ys @ [s]))), [])"
  using assms
  by (simp add: save_last_speed_def read_for_save_def parse_lines_written filter_nonneg_id
      write_lines_def)

lemma save_on_missing:
  "save_last_speed Missing WriteOk s = (Inr (), Content (map py_str_int [s]), [])"
  by (simp add: save_last_speed_def read_for_save_def write_lines_def py_last_def MAX_SPEEDS_def)

lemma set_py_last: "set (py_last n xs) \<subseteq> set xs"
  by (simp add: py_last_def set_drop_subset)

lemma record_all_written:
  assumes "\<forall>s\<in>set ys. 0 \<le> s" "\<forall>s\<in>set xs. 0 \<le> s"
  shows "record_all (Content (map py_str_int (py_last MAX_SPEEDS ys))) xs =
           Content (map py_str_int (py_last MAX_SPEEDS (ys @ xs)))"
  using assms
proof (induction xs arbitrary: ys)
  case Nil
  then show ?case by (simp add: record_all_def)
next
  case (Cons x xs)
  have nn: "\<forall>s\<in>set (py_last MAX_SPEEDS ys). 0 \<le> s"
    using Cons.prems(1) set_py_last [of MAX_SPEEDS ys] by auto
  have "record_all (Content (map py_str_int (py_last MAX_SPEEDS ys))) (x # xs) =
        record_all (Content (map py_str_int (py_last MAX_SPEEDS (ys @ [x])))) xs"
    by (simp add: record_all_def save_on_written [OF nn] py_last_append)
  also have "\<dots> = Content (map py_str_int (py_last MAX_SPEEDS ((ys @ [x]) @ xs)))"
    using Cons.prems by (intro Cons.IH) auto
  finally show ?case by simp
qed

lemma record_all_missing:
  assumes "\<forall>s\<in>set xs. 0 \<le> s" "xs \<noteq> []"
  shows "record_all Missing xs = Content (map py_str_int (py_last MAX_SPEEDS xs))"
proof (cases xs)
  case Nil
  with assms show ?thesis by simp
next
  case (Cons x rest)
  have "record_all Missing (x # rest) = record_all (Content (map py_str_int (py_last MAX_SPEEDS [x]))) rest"
    by (simp add: record_all_def save_on_missing py_last_def MAX_SPEEDS_def)
  also have "\<dots> = Content (map py_str_int (py_last MAX_SPEEDS ([x] @ rest)))"
    using assms Cons by (intro record_all_written) auto
  finally show ?thesis using Cons by simp
qed

lemma record_all_empty_file:
  assumes "\<forall>s\<in>set xs. 0 \<le> s"
  shows "record_all (Content []) xs = Content (map py_str_int (py_last MAX_SPEEDS xs))"
proof -
  have "record_all (Content (map py_str_int (py_last MAX_SPEEDS []))) xs =
          Content (map py_str_int (py_last MAX_SPEEDS ([] @ xs)))"
    using assms by (intro record_all_written) auto
  then show ?thesis by (simp add: py_last_def)
qed

lemma set_first_seen: "set (first_seen xs) = set xs"
  by (induction xs) auto

lemma distinct_first_seen: "distinct (first_seen xs)"
  by (induction xs) (auto simp: set_first_seen)

lemma first_seen_snoc:
  "first_seen (ys @ [x]) = (if x \<in> set ys then first_seen ys else first_seen ys @ [x])"
  by (induction ys) auto

lemma counter_add_keys:
  "distinct ks \<Longrightarrow>
   counter_add x (map (\<lambda>k. (k, f k)) ks) =
     (if x \<in> set ks then map (\<lambda>k. (k, if k = x then Suc (f k) else f k)) ks
      else map (\<lambda>k. (k, f k)) ks @ [(x, 1)])"
  by (induction ks) auto

lemma Counter_snoc: "Counter (ys @ [x]) = counter_add x (Counter ys)"
  by (simp add: Counter_def)

lemma Counter_eq: "Counter xs = map (\<lambda>k. (k, count_list xs k)) (first_seen xs)"
proof (induction xs rule: rev_induct)
  case Nil
  then show ?case by (simp add: Counter_def)
next
  case (snoc x xs)
  have notin: "x \<notin> set xs \<Longrightarrow> count_list xs x = 0"
    by (simp add: count_list_0_iff)
  show ?case
    unfolding Counter_snoc snoc.IH
    by (subst counter_add_keys [OF distinct_first_seen])
       (auto simp: first_seen_snoc set_first_seen notin)
qed

lemma find_filter_weaker: "(\<And>y. P y \<Longrightarrow> Q y) \<Longrightarrow> find P (filter Q xs) = find P xs"
  by (induction xs) auto

lemma find_first_seen: "find P (first_seen xs) = find P xs"
proof (induction xs)
  case Nil
  then show ?case by simp
next
  case (Cons x xs)
  show ?case
  proof (cases "P x")
    case True
    then show ?thesis by simp
  next
    case False
    then have "find P (filter (\<lambda>y. y \<noteq> x) (first_seen xs)) = find P (first_seen xs)"
      by (intro find_filter_weaker) auto
    with False Cons show ?thesis by simp
  qed
qed

lemma find_Max_Some:
  assumes "c \<noteq> []"
  shows "\<exists>q. find (\<lambda>q. snd q = Max (snd ` set c)) c = Some q \<and> snd q = Max (snd ` set c)"
proof -
  have "Max (snd ` set c) \<in> snd ` set c"
    using assms by (intro Max_in) auto
  then obtain p where "p \<in> set c" "snd p = Max (snd ` set c)" by auto
  then have "find (\<lambda>q. snd q = Max (snd ` set c)) c \<noteq> None"
    unfolding find_None_iff by blast
  then obtain q where q: "find (\<lambda>q. snd q = Max (snd ` set c)) c = Some q" by auto
  then have "snd q = Max (snd ` set c)"
    by (auto simp: find_Some_iff)
  with q show ?thesis by simp
qed

lemma most_common_1_find:
  "c \<noteq> [] \<Longrightarrow> most_common_1 c = find (\<lambda>q. snd q = Max (snd ` set c)) (c :: ('a \<times> nat) list)"
proof (induction c)
  case Nil
  then show ?case by simp
next
  case (Cons p ps)
  show ?case
  proof (cases "ps = []")
    case True
    then show ?thesis by simp
  next
    case False
    let ?M = "Max (snd ` set ps)"
    from find_Max_Some [OF False] obtain q where
      q: "find (\<lambda>q. snd q = ?M) ps = Some q" "snd q = ?M" by blast
    have mc: "most_common_1 ps = Some q"
      using Cons.IH [OF False] q by simp
    have M: "Max (snd ` set (p # ps)) = max (snd p) ?M"
      using False by simp
    show ?thesis
    proof (cases "snd p < ?M")
      case True
      then have "max (snd p) ?M = ?M" "snd p \<noteq> ?M" by auto
      with mc q True show ?thesis
        unfolding M by simp
    next
      case False
      then have "max (snd p) ?M = snd p" by auto
      with mc q False show ?thesis
        unfolding M by simp
    qed
  qed
qed

lemma find_map_key:
  "find (\<lambda>q. snd q = m) (map (\<lambda>k. (k, f k)) ks) = map_option (\<lambda>k. (k, f k)) (find (\<lambda>k. f k = m) ks)"
  by (induction ks) auto

lemma most_common_Counter:
  "map_option fst (most_common_1 (Counter xs)) = most_frequent_first xs"
proof (cases "xs = []")
  case True
  then show ?thesis by (simp add: Counter_def most_frequent_first_def)
next
  case False
  then have ne: "Counter xs \<noteq> []"
    by (cases xs) (simp_all add: Counter_eq)
  have img: "snd ` set (Counter xs) = set (map (count_list xs) xs)"
    by (simp add: Counter_eq set_first_seen image_image)
  show ?thesis
    unfolding most_common_1_find [OF ne] img
    by (simp add: Counter_eq find_map_key find_first_seen most_frequent_first_def
        option.map_comp comp_def option.map_ident)
qed

lemma div_round_half_up:
  assumes "0 < (b::int)"
  shows "(s + b div 2) div b = round (of_int s / of_int b :: real)"
proof -
  have "round (of_int s / of_int b :: real) = \<lfloor>of_int (2 * s + b) / of_int (2 * b) :: real\<rfloor>"
    using assms by (simp add: round_def field_simps)
  also have "\<dots> = (2 * s + b) div (2 * b)"
    by (simp only: floor_divide_of_int_eq)
  also have "\<dots> = (2 * s + b) div 2 div b"
    using assms by (simp add: zdiv_zmult2_eq)
  also have "(2 * s + b) div 2 = s + b div 2"
    by presburger
  finally show ?thesis by simp
qed

lemma max_trunc_floor: "max 50000 (py_trunc x) = max 50000 \<lfloor>x\<rfloor>"
proof (cases "0 \<le> x")
  case True
  then show ?thesis by (simp add: py_trunc_def)
next
  case False
  then have "\<lfloor>x\<rfloor> \<le> 0" "\<lceil>x\<rceil> \<le> 0"
    by (simp_all add: floor_le_iff ceiling_le_iff)
  with False show ?thesis by (simp add: py_trunc_def)
qed

lemma bin_speed_dynamic_nearest:
  "bin_speed_dynamic s avg = nearest_multiple (max 50000 \<lfloor>fl (avg * fl (1 / 20))\<rfloor>) s"
proof -
  let ?b = "max 50000 \<lfloor>fl (avg * fl (1 / 20))\<rfloor>"
  have pos: "0 < ?b" by simp
  have "bin_speed_dynamic s avg = (s + ?b div 2) div ?b * ?b"
    by (simp add: bin_speed_dynamic_def Let_def max_trunc_floor)
  then show ?thesis
    by (simp add: div_round_half_up [OF pos] nearest_multiple_def)
qed

lemmas eval_float =
  fl_def binary_exponent_def bit_length.simps pow2_def round_half_even_def overflows_def
  int_true_div_def py_trunc_def Let_def

lemmas eval_store =
  py_str_int_def str_nat.simps digit_char_def py_isspace_def py_isdecimal_char_def
  py_isdigit_char_def py_strip_def py_isdigit_def digit_value_def py_int_str_def
  read_for_save_def py_last_def write_lines_def save_last_speed_def bin_speed_dynamic_def
  Counter_def representative_def load_body_def load_last_speed_def MAX_SPEEDS_def
  record_all_def stored_lines_def history_def

text \<open>
  Claim C3. After any sequence of \<open>N\<close> record operations, starting from an absent or
  empty history file, the file holds exactly the last \<open>min(10, N)\<close> recorded samples, one
  decimal integer per line, in insertion order; reading it back gives these samples, never
  more than 10 of them. A recorded sample is a transfer speed, which is not negative, and
  \<open>record_all\<close> is a run of calls whose writes reach the file.
\<close>

theorem speed_history_last_10:
  assumes "fs = Missing \<or> fs = Content []" and "\<forall>s\<in>set speeds. 0 \<le> s"
  shows "stored_lines (record_all fs speeds) =
           map py_str_int (drop (length speeds - min 10 (length speeds)) speeds)
       \<and> history (record_all fs speeds) =
           drop (length speeds - min 10 (length speeds)) speeds
       \<and> length (history (record_all fs speeds)) = min 10 (length speeds)"
proof -
  have nn: "\<forall>s\<in>set (py_last MAX_SPEEDS speeds). 0 \<le> s"
    using assms(2) set_py_last [of MAX_SPEEDS speeds] by auto
  have eq: "drop (length speeds - min 10 (length speeds)) speeds = py_last MAX_SPEEDS speeds"
    by (cases "10 \<le> length speeds") (simp_all add: py_last_def MAX_SPEEDS_def min_def)
  have len: "length (py_last MAX_SPEEDS speeds) = min 10 (length speeds)"
    by (simp add: py_last_def MAX_SPEEDS_def min_def)
  have written: "speeds \<noteq> [] \<or> fs = Content [] \<Longrightarrow>
      record_all fs speeds = Content (map py_str_int (py_last MAX_SPEEDS speeds))"
    using assms record_all_missing [of speeds] record_all_empty_file [of speeds] by auto
  show ?thesis
  proof (cases "speeds \<noteq> [] \<or> fs = Content []")
    case True
    show ?thesis
      unfolding eq
      by (simp add: written [OF True] stored_lines_def history_def read_for_save_def
          parse_lines_written filter_nonneg_id [OF nn] len)
  next
    case False
    with assms(1) have "speeds = []" "fs = Missing" by auto
    then show ?thesis
      by (simp add: record_all_def stored_lines_def history_def read_for_save_def)
  qed
qed

theorem speed_history_last_10_witness:
  "list_all (\<lambda>s. 0 \<le> s) [1, 2, 3, 4, 5, 6, 7, 8, 9, 10, 11, 12 :: int] \<and>
   stored_lines (record_all Missing [1, 2, 3, 4, 5, 6, 7, 8, 9, 10, 11, 12]) =
     [''3'', ''4'', ''5'', ''6'', ''7'', ''8'', ''9'', ''10'', ''11'', ''12''] \<and>
   history (record_all Missing [1, 2, 3, 4, 5, 6, 7, 8, 9, 10, 11, 12]) =
     [3, 4, 5, 6, 7, 8, 9, 10, 11, 12]"
  using speed_history_last_10 [of Missing "[1, 2, 3, 4, 5, 6, 7, 8, 9, 10, 11, 12]"]
  by (simp add: py_str_int_def str_nat.simps digit_char_def)

text \<open>
  Claim C9. \<open>save_last_speed\<close> returns normally whatever the state of the file and
  whatever happens to the write, and it logs the failure of the read and of the write;
  \<open>load_last_speed\<close> never raises, and returns \<open>None\<close> when the file is absent, empty or
  unreadable.
\<close>

theorem storage_failures_never_propagate:
  "fst (save_last_speed fs wo speed_bps) = Inr ()
   \<and> Failed_to_load_speeds_for_saving OSError \<in> set (snd (snd (save_last_speed Unreadable wo speed_bps)))
   \<and> Failed_to_save_speeds OSError \<in> set (snd (snd (save_last_speed fs OpenFails speed_bps)))
   \<and> Failed_to_save_speeds OSError \<in> set (snd (snd (save_last_speed fs (WriteFailsAfter k) speed_bps)))
   \<and> fst (snd (save_last_speed fs OpenFails speed_bps)) = fs
   \<and> (\<exists>r. fst (load_last_speed fs) = Inr r)
   \<and> load_last_speed Missing = (Inr None, [])
   \<and> load_last_speed (Content []) = (Inr None, [])
   \<and> load_last_speed Unreadable = (Inr None, [Failed_to_load_speeds OSError])"
proof -
  have 1: "fst (save_last_speed fs wo speed_bps) = Inr ()" for fs wo
    by (cases wo) (simp_all add: save_last_speed_def write_lines_def Let_def split: sum.splits prod.splits)
  have 2: "Failed_to_load_speeds_for_saving OSError \<in> set (snd (snd (save_last_speed Unreadable wo speed_bps)))"
    by (cases wo) (simp_all add: save_last_speed_def write_lines_def read_for_save_def Let_def)
  have 3: "Failed_to_save_speeds OSError \<in> set (snd (snd (save_last_speed fs OpenFails speed_bps)))"
    by (simp add: save_last_speed_def write_lines_def Let_def split: sum.splits prod.splits)
  have 4: "Failed_to_save_speeds OSError \<in> set (snd (snd (save_last_speed fs (WriteFailsAfter k) speed_bps)))"
    by (simp add: save_last_speed_def write_lines_def Let_def split: sum.splits prod.splits)
  have 5: "fst (snd (save_last_speed fs OpenFails speed_bps)) = fs"
    by (simp add: save_last_speed_def write_lines_def Let_def split: sum.splits prod.splits)
  have 6: "\<exists>r. fst (load_last_speed fs) = Inr r"
    by (simp add: load_last_speed_def split: sum.splits)
  have 7: "load_last_speed Missing = (Inr None, [])"
    "load_last_speed (Content []) = (Inr None, [])"
    "load_last_speed Unreadable = (Inr None, [Failed_to_load_speeds OSError])"
    by (simp_all add: load_last_speed_def load_body_def representative_def)
  from 1 2 3 4 5 6 7 show ?thesis by blast
qed

text \<open>
  Claim C10, on the code. A line that holds a superscript digit passes \<open>isdigit()\<close> and is
  then refused by \<open>int()\<close>: the read is given up as a whole. \<open>load_last_speed\<close> logs the
  failure and returns \<open>None\<close> although the file holds a valid sample, where it returns the
  sample once the line is taken out; \<open>save_last_speed\<close> on that file drops the valid
  sample from the history it writes back.
\<close>

theorem superscript_digit_line_not_ignored:
  "load_last_speed (Content [''100000'', [CHR 0xB2]]) = (Inr None, [Failed_to_load_speeds ValueError])
   \<and> load_last_speed (Content [''100000'']) = (Inr (Some 100000), [])
   \<and> save_last_speed (Content [''100000'', [CHR 0xB2]]) WriteOk 7 =
       (Inr (), Content [''7''], [Failed_to_load_speeds_for_saving ValueError])"
  by (simp add: eval_store eval_float)

text \<open>
  Claim C2, as amended. For every non-empty list of stored samples whose mean fits a float,
  the representative speed is the most frequent binned value, the first one met winning a
  tie, where each sample is rounded (halves upwards) to the nearest multiple of the bin size
  \<open>max(50000, int(mean * 0.05))\<close>: the mean is the float nearest to the exact mean, its
  product with \<open>0.05\<close> is a float product, and that product is cut to an integer. When the
  mean is too large for a float the division raises OverflowError, which is logged, and
  there is no representative speed.
\<close>

theorem representative_speed_binned_mode:
  assumes "parse_lines ls = Inr speeds" and "speeds \<noteq> []"
  shows "load_last_speed (Content ls) =
           (if overflows (of_int (sum_list speeds) / of_nat (length speeds))
            then (Inr None, [Failed_to_load_speeds OverflowError])
            else (Inr (most_frequent_first
                         (map (nearest_multiple
                                 (max 50000
                                    \<lfloor>fl (fl (of_int (sum_list speeds) / of_nat (length speeds))
                                          * fl (1 / 20))\<rfloor>))
                            speeds)), []))"
  using assms
  by (simp add: load_last_speed_def load_body_def representative_def int_true_div_def Let_def
      most_common_Counter bin_speed_dynamic_nearest)

theorem representative_speed_binned_mode_witness:
  "parse_lines [''230000'', ''120000'', '' 110000 '', ''x'', ''240000''] =
     Inr [230000, 120000, 110000, 240000]
   \<and> \<not> overflows (of_int (sum_list [230000, 120000, 110000, 240000 :: int])
                    / of_nat (length [230000, 120000, 110000, 240000 :: int]))
   \<and> map (nearest_multiple
             (max 50000
                \<lfloor>fl (fl (of_int (sum_list [230000, 120000, 110000, 240000 :: int])
                          / of_nat (length [230000, 120000, 110000, 240000 :: int]))
                      * fl (1 / 20))\<rfloor>))
        [230000, 120000, 110000, 240000] = [250000, 100000, 100000, 250000]
   \<and> load_last_speed (Content [''230000'', ''120000'', '' 110000 '', ''x'', ''240000'']) =
       (Inr (Some 250000), [])"
proof -
  have p: "parse_lines [''230000'', ''120000'', '' 110000 '', ''x'', ''240000''] =
             Inr [230000, 120000, 110000, 240000]"
    by (simp add: eval_store)
  have ne: "[230000, 120000, 110000, 240000 :: int] \<noteq> []" by simp
  have o: "\<not> overflows (of_int (sum_list [230000, 120000, 110000, 240000 :: int])
                    / of_nat (length [230000, 120000, 110000, 240000 :: int]))"
    by (simp add: overflows_def)
  have c: "fl (1 / 20) = 7205759403792794 / 2 ^ 57"
    by (simp add: eval_float)
  have b: "\<lfloor>fl (fl (of_int (sum_list [230000, 120000, 110000, 240000 :: int])
                     / of_nat (length [230000, 120000, 110000, 240000 :: int]))
                 * fl (1 / 20))\<rfloor> = 8750"
    unfolding c by (simp add: eval_float)
  have r: "round (23 / 5 :: real) = 5" "round (12 / 5 :: real) = 2"
          "round (11 / 5 :: real) = 2" "round (24 / 5 :: real) = 5"
    by (rule round_unique; simp)+
  have m: "map (nearest_multiple (max 50000 8750)) [230000, 120000, 110000, 240000] =
             [250000, 100000, 100000, 250000]"
    by (simp add: nearest_multiple_def r)
  have f: "most_frequent_first [250000, 100000, 100000, 250000 :: int] = Some 250000"
    by (simp add: most_frequent_first_def)
  from representative_speed_binned_mode [OF p ne] p o b m f show ?thesis
    by simp
qed

text \<open>
  Claim C2 as it is stated takes the exact mean and \<open>max(50000, 0.05 * mean)\<close> itself as
  bin size. For the single sample 1000010 that is 50000.5, whose multiple nearest to the
  sample is the sample itself, while the code cuts the bin size to 50000 and returns 1000000.
  For the single sample 6756124892378919 the float product with \<open>0.05\<close> is
  337806244618946 where the exact one is 337806244618945.95, and the code returns
  6756124892378920. For the single sample \<open>10^309\<close>, written in decimal in the file,
  the mean is too large for a float and the code returns no speed at all.
\<close>

theorem representative_bin_size_counterexample:
  "load_last_speed (Content [''1000010'']) = (Inr (Some 1000000), [])
   \<and> spec_representative [1000010] = Some 1000010
   \<and> load_last_speed (Content [''6756124892378919'']) = (Inr (Some 6756124892378920), [])
   \<and> spec_representative [6756124892378919] = Some 6756124892378919
   \<and> load_last_speed (Content [py_str_int (10 ^ 309)]) =
       (Inr None, [Failed_to_load_speeds OverflowError])
   \<and> spec_representative [10 ^ 309] = Some (10 ^ 309)"
proof -
  have r: "round (20 :: real) = 20"
    by simp
  have s1: "spec_representative [1000010] = Some 1000010"
    by (simp add: spec_representative_def most_frequent_first_def spec_round_to_bin_def r)
  have s2: "spec_representative [6756124892378919] = Some 6756124892378919"
    by (simp add: spec_representative_def most_frequent_first_def spec_round_to_bin_def r)
  have s3: "spec_representative [10 ^ 309] = Some (10 ^ 309)"
    by (simp add: spec_representative_def most_frequent_first_def spec_round_to_bin_def r)
  have l1: "load_last_speed (Content [''1000010'']) = (Inr (Some 1000000), [])"
    by (simp add: eval_store eval_float)
  have l2: "load_last_speed (Content [''6756124892378919'']) = (Inr (Some 6756124892378920), [])"
    by (simp add: eval_store eval_float)
  have p3: "parse_lines [py_str_int (10 ^ 309)] = Inr [10 ^ 309]"
    using parse_lines_written [of "[10 ^ 309]"] by (simp del: parse_lines.simps)
  have "load_body (Content [py_str_int (10 ^ 309)]) = representative [10 ^ 309]"
    by (simp only: load_body_def file_state.case p3 sum.case)
  moreover have "representative [10 ^ 309] = Inl OverflowError"
    by (simp add: representative_def int_true_div_def overflows_def)
  ultimately have l3: "load_last_speed (Content [py_str_int (10 ^ 309)]) =
              (Inr None, [Failed_to_load_speeds OverflowError])"
    by (simp only: load_last_speed_def sum.case)
  from s1 s2 s3 l1 l2 l3 show ?thesis by (intro conjI)
qed


section \<open>Properties of the format selector\<close>

lemma py_str_int_decimal:
  assumes "py_str_int i = s" and "py_isdecimal_char (hd s)"
  shows "py_int_str s = Inr i"
proof (cases "i < 0")
  case True
  with assms(1) have "hd s = CHR ''-''" by (auto simp: py_str_int_def)
  with assms(2) show ?thesis by (simp add: py_isdecimal_char_def)
next
  case False
  with assms(1) have "s = str_nat (nat i)" by (simp add: py_str_int_def)
  with False show ?thesis by (simp add: py_int_str_str_nat)
qed

lemma py_str_height_target:
  assumes "(h, res) \<in> set [(4320, ''4320''), (2160, ''2160''), (1440, ''1440''), (1080, ''1080'')]"
  shows "py_str_height x = res \<longleftrightarrow> x = Some h"
proof
  assume eq: "py_str_height x = res"
  show "x = Some h"
  proof (cases x)
    case None
    with eq assms show ?thesis by (auto simp: py_str_height_def)
  next
    case (Some i)
    with eq have s: "py_str_int i = res" by (simp add: py_str_height_def)
    from assms have "py_isdecimal_char (hd res)" by (auto simp: py_isdecimal_char_def)
    from py_str_int_decimal [OF s this] assms have "i = h"
      by (auto simp: py_int_str_def py_isdecimal_char_def digit_value_def)
    with Some show ?thesis by simp
  qed
next
  assume "x = Some h"
  moreover have "py_str_int 4320 = ''4320''" "py_str_int 2160 = ''2160''"
    "py_str_int 1440 = ''1440''" "py_str_int 1080 = ''1080''"
    by (simp_all add: py_str_int_def str_nat.simps digit_char_def)
  ultimately show "py_str_height x = res"
    using assms by (auto simp: py_str_height_def)
qed

lemma target_pairs:
  assumes "k < 4"
  shows "([4320, 2160, 1440, 1080] ! k, fst (targets ! k))
           \<in> set [(4320 :: int, ''4320''), (2160, ''2160''), (1440, ''1440''), (1080, ''1080'')]"
    and "fst (targets ! k) \<in> set (map fst targets)"
proof -
  from assms have "k = 0 \<or> k = 1 \<or> k = 2 \<or> k = 3" by arith
  then show "([4320, 2160, 1440, 1080] ! k, fst (targets ! k))
           \<in> set [(4320 :: int, ''4320''), (2160, ''2160''), (1440, ''1440''), (1080, ''1080'')]"
    and "fst (targets ! k) \<in> set (map fst targets)"
    by (auto simp: targets_def)
qed

lemma fps_or_0_val:
  "num_val (fps_or_0 g) = (case fps g of None \<Rightarrow> 0 | Some v \<Rightarrow> num_val v)"
  by (simp add: fps_or_0_def truthy_def split: option.splits)

lemma fps_or_0_fps:
  "fps_or_0 g = (case fps g of None \<Rightarrow> PyInt 0 | Some v \<Rightarrow> if num_val v = 0 then PyInt 0 else v)"
  by (simp add: fps_or_0_def truthy_def split: option.splits)

lemma scan_step_at:
  assumes "res \<in> set (map fst targets)" and "scan_step d (bf, se) f = Inr (bf', se')"
  shows "bf' res =
           (if vcodec f \<noteq> Some ''none'' \<and> py_str_height (height f) = res
            then better (bf res) (f, case estimate_size f d of Inl e \<Rightarrow> None | Inr r \<Rightarrow> r)
            else bf res)"
    and "se' res =
           (if vcodec f \<noteq> Some ''none'' \<and> py_str_height (height f) = res
            then se res @ (case estimate_size f d of Inr (Some e) \<Rightarrow> [e] | _ \<Rightarrow> [])
            else se res)"
  using assms
  by (auto simp: scan_step_def Let_def better_def split: if_splits sum.splits option.splits)

lemma scan_fold:
  assumes "res \<in> set (map fst targets)" and "scan d formats (bf, se) = Inr (bf', se')"
  shows "bf' res =
           foldl better (bf res)
             (map (\<lambda>g. (g, case estimate_size g d of Inl e \<Rightarrow> None | Inr r \<Rightarrow> r))
                (filter (\<lambda>g. vcodec g \<noteq> Some ''none'' \<and> py_str_height (height g) = res) formats))
       \<and> se' res =
           se res @ concat (map (\<lambda>g. case estimate_size g d of Inr (Some e) \<Rightarrow> [e] | _ \<Rightarrow> [])
                (filter (\<lambda>g. vcodec g \<noteq> Some ''none'' \<and> py_str_height (height g) = res) formats))"
  using assms(2)
proof (induction formats arbitrary: bf se)
  case Nil
  then show ?case by simp
next
  case (Cons f formats)
  from Cons.prems obtain bf1 se1 where
    st: "scan_step d (bf, se) f = Inr (bf1, se1)" and
    rest: "scan d formats (bf1, se1) = Inr (bf', se')"
    by (auto split: sum.splits)
  note at = scan_step_at [OF assms(1) st]
  from Cons.IH [OF rest] show ?case
    by (simp add: at)
qed

lemma better_fold:
  assumes "ms \<noteq> []"
  shows "\<exists>f before after. ms = before @ f # after
           \<and> (\<forall>g\<in>set before. num_val (fps_or_0 g) < num_val (fps_or_0 f))
           \<and> (\<forall>g\<in>set after. num_val (fps_or_0 g) \<le> num_val (fps_or_0 f))
           \<and> foldl better None (map (\<lambda>g. (g, E g)) ms) = Some (new_best f (E f))"
  using assms
proof (induction ms rule: rev_induct)
  case Nil
  then show ?case by simp
next
  case (snoc x xs)
  show ?case
  proof (cases "xs = []")
    case True
    have "[x] = [] @ x # []" by simp
    moreover have "foldl better None (map (\<lambda>g. (g, E g)) [x]) = Some (new_best x (E x))"
      by (simp add: better_def)
    ultimately show ?thesis
      using True by (intro exI [of _ x] exI [of _ "[]"]) simp
  next
    case False
    from snoc.IH [OF False] obtain f before after where
      IH: "xs = before @ f # after"
          "\<forall>g\<in>set before. num_val (fps_or_0 g) < num_val (fps_or_0 f)"
          "\<forall>g\<in>set after. num_val (fps_or_0 g) \<le> num_val (fps_or_0 f)"
          "foldl better None (map (\<lambda>g. (g, E g)) xs) = Some (new_best f (E f))"
      by blast
    show ?thesis
    proof (cases "num_val (fps_or_0 x) > num_val (fps_or_0 f)")
      case True
      have 1: "foldl better None (map (\<lambda>g. (g, E g)) (xs @ [x])) = Some (new_best x (E x))"
        using True IH(4) by (simp add: better_def new_best_def)
      have 2: "\<forall>g\<in>set xs. num_val (fps_or_0 g) < num_val (fps_or_0 x)"
        using True IH(1,2,3) by fastforce
      show ?thesis
        using 1 2 by (intro exI [of _ x] exI [of _ xs] exI [of _ "[]"]) simp
    next
      case False
      have 1: "foldl better None (map (\<lambda>g. (g, E g)) (xs @ [x])) = Some (new_best f (E f))"
        using False IH(4) by (simp add: better_def new_best_def)
      have 2: "\<forall>g\<in>set (after @ [x]). num_val (fps_or_0 g) \<le> num_val (fps_or_0 f)"
        using False IH(3) by auto
      show ?thesis
        using 1 2 IH(1,2)
        by (intro exI [of _ f] exI [of _ before] exI [of _ "after @ [x]"]) simp
    qed
  qed
qed

lemma average_step_at:
  assumes "average_step se bf k = Inr bf'"
  shows "bf' r =
     (if r = k \<and> se k \<noteq> []
      then map_option
             (\<lambda>c. c\<lparr>cand_filesize :=
                      Some (PyFloat (fl (of_int (sum_list (se k)) / of_nat (length (se k)))))\<rparr>)
             (bf k)
      else bf r)"
    and "se k \<noteq> [] \<Longrightarrow> \<not> overflows (of_int (sum_list (se k)) / of_nat (length (se k)))"
  using assms
  by (auto simp: average_step_def int_true_div_def split: if_splits option.splits)

lemma average_fold:
  assumes "average se ks bf = Inr bf'" and "distinct ks"
  shows "bf' r =
     (if r \<in> set ks \<and> se r \<noteq> []
      then map_option
             (\<lambda>c. c\<lparr>cand_filesize :=
                      Some (PyFloat (fl (of_int (sum_list (se r)) / of_nat (length (se r)))))\<rparr>)
             (bf r)
      else bf r)"
  using assms
proof (induction ks arbitrary: bf)
  case Nil
  then show ?case by simp
next
  case (Cons k ks)
  from Cons.prems(1) obtain bf1 where
    st: "average_step se bf k = Inr bf1" and rest: "average se ks bf1 = Inr bf'"
    by (auto split: sum.splits)
  from Cons.prems(2) have d: "distinct ks" and nk: "k \<notin> set ks" by simp_all
  from Cons.IH [OF rest d] nk show ?case
    by (auto simp: average_step_at(1) [OF st])
qed

lemma distinct_targets: "distinct (map fst targets)"
  by (simp add: targets_def)

lemma best_formats_table_at:
  assumes "res \<in> set (map fst targets)" and "best_formats_table formats d = Inr tbl"
    and "ms = filter (\<lambda>g. vcodec g \<noteq> Some ''none'' \<and> py_str_height (height g) = res) formats"
    and "es = concat (map (\<lambda>g. case estimate_size g d of Inr (Some e) \<Rightarrow> [e] | _ \<Rightarrow> []) ms)"
  shows "tbl res =
           (if es \<noteq> []
            then map_option
                   (\<lambda>c. c\<lparr>cand_filesize :=
                            Some (PyFloat (fl (of_int (sum_list es) / of_nat (length es))))\<rparr>)
                   (foldl better None
                      (map (\<lambda>g. (g, case estimate_size g d of Inl e \<Rightarrow> None | Inr r \<Rightarrow> r)) ms))
            else foldl better None
                   (map (\<lambda>g. (g, case estimate_size g d of Inl e \<Rightarrow> None | Inr r \<Rightarrow> r)) ms))"
proof -
  from assms(2) obtain bf se where
    st: "scan d formats (\<lambda>res. None, \<lambda>res. []) = Inr (bf, se)" and
    av: "average se (map fst targets) bf = Inr tbl"
    by (auto simp: best_formats_table_def split: sum.splits prod.splits)
  from scan_fold [OF assms(1) st] assms(3,4)
  have "bf res = foldl better None
          (map (\<lambda>g. (g, case estimate_size g d of Inl e \<Rightarrow> None | Inr r \<Rightarrow> r)) ms)"
    and "se res = es"
    by simp_all
  then show ?thesis
    using assms(1) by (simp add: average_fold [OF av distinct_targets])
qed

lemma no_estimate_in_matching:
  assumes "concat (map (\<lambda>g. case estimate_size g d of Inr (Some e) \<Rightarrow> [e] | _ \<Rightarrow> []) ms) = []"
    and "f \<in> set ms"
  shows "(case estimate_size f d of Inl e \<Rightarrow> None | Inr r \<Rightarrow> r) = None"
  using assms by (auto split: sum.splits option.splits)

lemma print_rows_nth:
  assumes "print_rows sp bf entries = (rows, r)" and "k < length rows"
  shows "menu_row sp bf (entries ! k) = Inr (rows ! k)"
  using assms
proof (induction entries arbitrary: rows r k)
  case Nil
  then show ?case by simp
next
  case (Cons entry entries)
  show ?case
  proof (cases "menu_row sp bf entry")
    case (Inl e)
    with Cons.prems show ?thesis by simp
  next
    case (Inr row)
    obtain rows1 r1 where p: "print_rows sp bf entries = (rows1, r1)"
      by (cases "print_rows sp bf entries") auto
    with Cons.prems(1) Inr have rows: "rows = row # rows1" by simp
    show ?thesis
    proof (cases k)
      case 0
      with Inr rows show ?thesis by simp
    next
      case (Suc j)
      with Cons.prems(2) rows have "j < length rows1" by simp
      from Cons.IH [OF p this] Suc rows show ?thesis by simp
    qed
  qed
qed

lemma print_rows_length:
  assumes "print_rows sp bf entries = (rows, r)"
  shows "(r = None \<longrightarrow> length rows = length entries)
       \<and> (r \<noteq> None \<longrightarrow> length rows < length entries)"
  using assms
proof (induction entries arbitrary: rows r)
  case Nil
  then show ?case by simp
next
  case (Cons entry entries)
  show ?case
  proof (cases "menu_row sp bf entry")
    case (Inl e)
    with Cons.prems show ?thesis by auto
  next
    case (Inr row)
    obtain rows1 r1 where p: "print_rows sp bf entries = (rows1, r1)"
      by (cases "print_rows sp bf entries") auto
    with Cons.prems Inr have "rows = row # rows1" "r = r1" by simp_all
    with Cons.IH [OF p] show ?thesis by simp
  qed
qed

lemma length_targets: "length targets = 4"
  by (simp add: targets_def)

lemma menu_entry:
  "k < 4 \<Longrightarrow> zip [1 ..< Suc (length targets)] targets ! k = (Suc k, targets ! k)"
  by (simp add: length_targets)

lemma pick_video_format_trace:
  assumes "best_formats_table formats d = Inr tbl"
  shows "fst (pick_video_format formats d sp typed) =
           (case snd (menu sp tbl) of
              Some e \<Rightarrow> Select_video_resolution # fst (menu sp tbl)
            | None \<Rightarrow> Select_video_resolution # fst (menu sp tbl) @ fst (choice_loop tbl typed))"
    and "snd (pick_video_format formats d sp typed) =
           (case snd (menu sp tbl) of
              Some e \<Rightarrow> Inl e
            | None \<Rightarrow> snd (choice_loop tbl typed))"
  using assms
  by (auto simp: pick_video_format_def split: prod.splits option.splits)

lemma printed_row:
  assumes "k < 4" and "best_formats_table formats d = Inr tbl"
    and "Suc k < length (fst (pick_video_format formats d sp typed))"
  shows "menu_row sp tbl (Suc k, targets ! k) =
           Inr (fst (pick_video_format formats d sp typed) ! Suc k)"
proof -
  obtain rows r where m: "menu sp tbl = (rows, r)"
    by (cases "menu sp tbl") auto
  then have p: "print_rows sp tbl (zip [1 ..< Suc (length targets)] targets) = (rows, r)"
    by (simp add: menu_def)
  from print_rows_length [OF p] have len: "r = None \<longrightarrow> length rows = 4" "length rows \<le> 4"
    by (auto simp: length_targets)
  have k: "k < length rows"
  proof (cases r)
    case None
    with len assms(1) show ?thesis by simp
  next
    case (Some e)
    with assms(3) m show ?thesis
      by (simp add: pick_video_format_trace(1) [OF assms(2)])
  qed
  have "fst (pick_video_format formats d sp typed) ! Suc k = rows ! k"
    using k m by (simp add: pick_video_format_trace(1) [OF assms(2)] nth_append split: option.splits)
  moreover have "zip [1 ..< Suc (length targets)] targets ! k = (Suc k, targets ! k)"
    using assms(1) by (rule menu_entry)
  ultimately show ?thesis
    using print_rows_nth [OF p k] by (simp only:)
qed

lemma not_printed_raises:
  assumes "k < 4" and "best_formats_table formats d = Inr tbl"
    and "\<not> Suc k < length (fst (pick_video_format formats d sp typed))"
  shows "\<exists>e. snd (pick_video_format formats d sp typed) = Inl e"
proof -
  obtain rows r where m: "menu sp tbl = (rows, r)"
    by (cases "menu sp tbl") auto
  then have p: "print_rows sp tbl (zip [1 ..< Suc (length targets)] targets) = (rows, r)"
    by (simp add: menu_def)
  from print_rows_length [OF p] have len: "r = None \<longrightarrow> length rows = 4"
    by (auto simp: length_targets)
  show ?thesis
  proof (cases r)
    case None
    with len assms(1,3) m show ?thesis
      by (simp add: pick_video_format_trace(1) [OF assms(2)])
  next
    case (Some e)
    with m show ?thesis
      by (simp add: pick_video_format_trace(2) [OF assms(2)])
  qed
qed

lemma typed_digit:
  assumes "k < 4"
  shows "choice_loop tbl ([''1234'' ! k] # rest) =
           (case tbl (fst (targets ! k)) of
              Some c \<Rightarrow> ([Enter_resolution_choice], Inr c)
            | None \<Rightarrow>
                (let (evs, r) = choice_loop tbl rest
                 in (Enter_resolution_choice # That_resolution_is_not_available # evs, r)))"
proof -
  from assms have "k = 0 \<or> k = 1 \<or> k = 2 \<or> k = 3" by arith
  then show ?thesis
    by (elim disjE)
       (simp_all add: py_strip_def py_isspace_def py_int_str_def py_isdecimal_char_def
          digit_value_def targets_def)
qed

lemma pick_returns_chosen_candidate:
  assumes "k < 4" and "best_formats_table formats d = Inr tbl"
    and "snd (menu sp tbl) = None" and "tbl (fst (targets ! k)) = Some c"
  shows "snd (pick_video_format formats d sp ([''1234'' ! k] # rest)) = Inr c"
  using assms(3,4)
  by (simp add: pick_video_format_trace(2) [OF assms(2)] typed_digit [OF assms(1)]
      del: choice_loop.simps)

lemma all_rows_printed:
  assumes "best_formats_table formats d = Inr tbl"
    and "4 < length (fst (pick_video_format formats d sp typed))"
  shows "snd (menu sp tbl) = None"
proof (rule ccontr)
  assume "snd (menu sp tbl) \<noteq> None"
  then obtain e where e: "snd (menu sp tbl) = Some e" by auto
  obtain rows r where m: "menu sp tbl = (rows, r)"
    by (cases "menu sp tbl") auto
  then have p: "print_rows sp tbl (zip [1 ..< Suc (length targets)] targets) = (rows, r)"
    by (simp add: menu_def)
  from print_rows_length [OF p] e m have "length rows < 4"
    by (simp add: length_targets)
  with assms(2) e m show False
    by (simp add: pick_video_format_trace(1) [OF assms(1)])
qed

lemmas eval_format =
  best_formats_table_def scan_step_def average_step_def estimate_size_def new_best_def
  fps_or_0_def truthy_def py_str_height_def targets_def py_str_int_def str_nat.simps
  digit_char_def example_formats_def

text \<open>
  Claim C4, as amended. The size estimate of a stream is its direct size if there is one
  (0 included), else its approximate size if there is one, else
  \<open>int(duration_sec * tbr * 1000 / 8)\<close> when bitrate and duration are both present and both
  different from zero, else \<open>None\<close>. The expression is evaluated in Python's arithmetic
  (\<open>tbr\<close> is in kbit/s): between two ints the products are exact and the division gives
  the double nearest to the quotient; as soon as one of the two is a float every operation
  rounds to a double; \<open>int()\<close> cuts the result to whole bytes; a result too large for a
  double raises OverflowError.
\<close>

theorem estimate_size_fallback_order:
  "(filesize f = Some v \<longrightarrow> estimate_size f duration_sec = Inr (Some v))
   \<and> (filesize f = None \<and> filesize_approx f = Some v \<longrightarrow>
        estimate_size f duration_sec = Inr (Some v))
   \<and> (filesize f = None \<and> filesize_approx f = None \<and> tbr f = Some t \<and> duration_sec = Some s
        \<and> num_val t \<noteq> 0 \<and> num_val s \<noteq> 0 \<longrightarrow>
        estimate_size f duration_sec =
          (case py_mul s t of
             Inl e \<Rightarrow> Inl e
           | Inr p \<Rightarrow>
               (case py_mul p (PyInt 1000) of
                  Inl e \<Rightarrow> Inl e
                | Inr q \<Rightarrow>
                    (case py_true_div q (PyInt 8) of
                       Inl e \<Rightarrow> Inl e
                     | Inr r \<Rightarrow> Inr (Some (py_trunc r))))))
   \<and> (filesize f = None \<and> filesize_approx f = None \<and> tbr f = Some (PyInt i)
        \<and> duration_sec = Some (PyInt j) \<and> i \<noteq> 0 \<and> j \<noteq> 0 \<longrightarrow>
        estimate_size f duration_sec =
          (if overflows (of_int (j * i * 1000) / 8) then Inl OverflowError
           else Inr (Some (py_trunc (fl (of_int (j * i * 1000) / 8))))))
   \<and> (filesize f = None \<and> filesize_approx f = None
        \<and> (tbr f = None \<or> duration_sec = None
           \<or> (\<exists>t. tbr f = Some t \<and> num_val t = 0)
           \<or> (\<exists>s. duration_sec = Some s \<and> num_val s = 0)) \<longrightarrow>
        estimate_size f duration_sec = Inr None)"
  by (auto simp: estimate_size_def truthy_def int_true_div_def split: option.splits)

theorem estimate_size_fallback_order_witness:
  "estimate_size \<lparr>vcodec = Some ''vp9'', height = Some 1080, fps = None, format_id = Some ''248'',
      ext = None, filesize = Some 1000000, filesize_approx = Some 1200000,
      tbr = Some (PyInt 720)\<rparr> (Some (PyInt 10)) = Inr (Some 1000000)
   \<and> estimate_size \<lparr>vcodec = Some ''vp9'', height = Some 1080, fps = None, format_id = Some ''248'',
      ext = None, filesize = Some 0, filesize_approx = Some 1200000,
      tbr = Some (PyInt 720)\<rparr> (Some (PyInt 10)) = Inr (Some 0)
   \<and> estimate_size \<lparr>vcodec = Some ''vp9'', height = Some 1080, fps = None, format_id = Some ''248'',
      ext = None, filesize = None, filesize_approx = Some 1200000,
      tbr = Some (PyInt 720)\<rparr> (Some (PyInt 10)) = Inr (Some 1200000)
   \<and> estimate_size \<lparr>vcodec = Some ''vp9'', height = Some 1080, fps = None, format_id = Some ''248'',
      ext = None, filesize = None, filesize_approx = None,
      tbr = Some (PyInt 720)\<rparr> (Some (PyInt 10)) = Inr (Some 900000)
   \<and> estimate_size \<lparr>vcodec = Some ''vp9'', height = Some 1080, fps = None, format_id = Some ''248'',
      ext = None, filesize = None, filesize_approx = None,
      tbr = Some (PyFloat (176346 / 100))\<rparr> (Some (PyInt 152)) = Inr (Some 33505739)
   \<and> estimate_size \<lparr>vcodec = Some ''vp9'', height = Some 1080, fps = None, format_id = Some ''248'',
      ext = None, filesize = None, filesize_approx = None,
      tbr = Some (PyInt 720)\<rparr> (Some (PyFloat (1 / 2))) = Inr (Some 45000)
   \<and> estimate_size \<lparr>vcodec = Some ''vp9'', height = Some 1080, fps = None, format_id = Some ''248'',
      ext = None, filesize = None, filesize_approx = None,
      tbr = Some (PyFloat 0)\<rparr> (Some (PyInt 10)) = Inr None
   \<and> estimate_size \<lparr>vcodec = Some ''vp9'', height = Some 1080, fps = None, format_id = Some ''248'',
      ext = None, filesize = None, filesize_approx = None,
      tbr = None\<rparr> (Some (PyInt 10)) = Inr None"
  using
    estimate_size_fallback_order [of "\<lparr>vcodec = Some ''vp9'', height = Some 1080, fps = None,
      format_id = Some ''248'', ext = None, filesize = Some 1000000,
      filesize_approx = Some 1200000, tbr = Some (PyInt 720)\<rparr>" 1000000 "Some (PyInt 10)"
      "PyInt 720" "PyInt 10" 720 10]
    estimate_size_fallback_order [of "\<lparr>vcodec = Some ''vp9'', height = Some 1080, fps = None,
      format_id = Some ''248'', ext = None, filesize = Some 0,
      filesize_approx = Some 1200000, tbr = Some (PyInt 720)\<rparr>" 0 "Some (PyInt 10)"
      "PyInt 720" "PyInt 10" 720 10]
    estimate_size_fallback_order [of "\<lparr>vcodec = Some ''vp9'', height = Some 1080, fps = None,
      format_id = Some ''248'', ext = None, filesize = None,
      filesize_approx = Some 1200000, tbr = Some (PyInt 720)\<rparr>" 1200000 "Some (PyInt 10)"
      "PyInt 720" "PyInt 10" 720 10]
    estimate_size_fallback_order [of "\<lparr>vcodec = Some ''vp9'', height = Some 1080, fps = None,
      format_id = Some ''248'', ext = None, filesize = None,
      filesize_approx = None, tbr = Some (PyInt 720)\<rparr>" 0 "Some (PyInt 10)"
      "PyInt 720" "PyInt 10" 720 10]
    estimate_size_fallback_order [of "\<lparr>vcodec = Some ''vp9'', height = Some 1080, fps = None,
      format_id = Some ''248'', ext = None, filesize = None,
      filesize_approx = None, tbr = Some (PyFloat (176346 / 100))\<rparr>" 0 "Some (PyInt 152)"
      "PyFloat (176346 / 100)" "PyInt 152" 1 1]
    estimate_size_fallback_order [of "\<lparr>vcodec = Some ''vp9'', height = Some 1080, fps = None,
      format_id = Some ''248'', ext = None, filesize = None,
      filesize_approx = None, tbr = Some (PyInt 720)\<rparr>" 0 "Some (PyFloat (1 / 2))"
      "PyInt 720" "PyFloat (1 / 2)" 1 1]
    estimate_size_fallback_order [of "\<lparr>vcodec = Some ''vp9'', height = Some 1080, fps = None,
      format_id = Some ''248'', ext = None, filesize = None,
      filesize_approx = None, tbr = Some (PyFloat 0)\<rparr>" 0 "Some (PyInt 10)"
      "PyFloat 0" "PyInt 10" 1 1]
    estimate_size_fallback_order [of "\<lparr>vcodec = Some ''vp9'', height = Some 1080, fps = None,
      format_id = Some ''248'', ext = None, filesize = None,
      filesize_approx = None, tbr = None\<rparr>" 0 "Some (PyInt 10)"
      "PyInt 720" "PyInt 10" 1 1]
  by (simp add: eval_float)

text \<open>
  Claim C4 as it is stated gives \<open>bitrate * duration / 8\<close> whenever bitrate and duration are
  there. For a stream with a bitrate and no size, and a duration of 0 seconds, that is 0
  bytes; the code tests \<open>tbr and duration_sec\<close> and has no estimate. For a bitrate of
  1763.46 kbit/s and 152 seconds the quotient is not a whole number and the code cuts it to
  33505739. For 102.96 kbit/s and 1 second the code gives 12870, which is above the quotient:
  the two products round upwards. For a duration of \<open>10^309\<close> seconds at 1 kbit/s the
  code raises OverflowError and has no value at all.
\<close>

theorem estimate_size_zero_duration_counterexample:
  "estimate_size \<lparr>vcodec = Some ''vp9'', height = Some 1080, fps = None, format_id = Some ''248'',
      ext = None, filesize = None, filesize_approx = None,
      tbr = Some (PyInt 2500)\<rparr> (Some (PyInt 0)) = Inr None
   \<and> spec_estimate_size \<lparr>vcodec = Some ''vp9'', height = Some 1080, fps = None,
      format_id = Some ''248'', ext = None, filesize = None, filesize_approx = None,
      tbr = Some (PyInt 2500)\<rparr> (Some (PyInt 0)) = Some 0
   \<and> estimate_size \<lparr>vcodec = Some ''vp9'', height = Some 1080, fps = None, format_id = Some ''248'',
      ext = None, filesize = None, filesize_approx = None,
      tbr = Some (PyFloat (176346 / 100))\<rparr> (Some (PyInt 152)) = Inr (Some 33505739)
   \<and> spec_estimate_size \<lparr>vcodec = Some ''vp9'', height = Some 1080, fps = None,
      format_id = Some ''248'', ext = None, filesize = None, filesize_approx = None,
      tbr = Some (PyFloat (176346 / 100))\<rparr> (Some (PyInt 152)) =
        Some (4604993840904929375 / 137438953472)
   \<and> estimate_size \<lparr>vcodec = Some ''vp9'', height = Some 1080, fps = None, format_id = Some ''248'',
      ext = None, filesize = None, filesize_approx = None,
      tbr = Some (PyFloat (10296 / 100))\<rparr> (Some (PyInt 1)) = Inr (Some 12870)
   \<and> spec_estimate_size \<lparr>vcodec = Some ''vp9'', height = Some 1080, fps = None,
      format_id = Some ''248'', ext = None, filesize = None, filesize_approx = None,
      tbr = Some (PyFloat (10296 / 100))\<rparr> (Some (PyInt 1)) =
        Some (905645737566535625 / 70368744177664)
   \<and> (905645737566535625 / 70368744177664 :: real) < 12870
   \<and> estimate_size \<lparr>vcodec = Some ''vp9'', height = Some 1080, fps = None, format_id = Some ''248'',
      ext = None, filesize = None, filesize_approx = None,
      tbr = Some (PyInt 1)\<rparr> (Some (PyInt (10 ^ 309))) = Inl OverflowError
   \<and> spec_estimate_size \<lparr>vcodec = Some ''vp9'', height = Some 1080, fps = None,
      format_id = Some ''248'', ext = None, filesize = None, filesize_approx = None,
      tbr = Some (PyInt 1)\<rparr> (Some (PyInt (10 ^ 309))) = Some (125 * 10 ^ 309)"
  by (simp add: estimate_size_def spec_estimate_size_def truthy_def eval_float)

text \<open>
  Claim C1. Take one of the four target resolutions, the \<open>k\<close>-th, and the video streams
  (those whose \<open>vcodec\<close> is not \<open>none\<close>) whose height is exactly that resolution, in the order
  of the list; let there be at least one, and let the selector return a table (the only
  exception it can meet before the menu is the OverflowError of a size too large for a
  float). Then the candidate kept for the resolution is built from the stream of highest
  frame rate among them, a missing frame rate counting as 0, and from the first such stream
  when several reach that rate; the size recorded with it is the arithmetic mean of all the
  size estimates that could be made for these streams, as the float that the division of
  their sum by their number gives, and \<open>None\<close> when no estimate could be made. That size,
  as \<open>sizeof_fmt\<close> prints it, is what the line of the resolution shows in the menu, and the
  candidate is what the function returns when the user types the number of the resolution.
\<close>

theorem best_format_per_resolution:
  assumes "k < 4"
    and "ms = filter (\<lambda>g. vcodec g \<noteq> Some ''none''
                          \<and> height g = Some ([4320, 2160, 1440, 1080] ! k)) formats"
    and "ms \<noteq> []"
    and "es = concat (map (\<lambda>g. case estimate_size g d of Inr (Some e) \<Rightarrow> [e] | _ \<Rightarrow> []) ms)"
    and "best_formats_table formats d = Inr tbl"
  shows "\<exists>f before after c.
           ms = before @ f # after
         \<and> (\<forall>g\<in>set before. (case fps g of None \<Rightarrow> 0 | Some v \<Rightarrow> num_val v)
                              < (case fps f of None \<Rightarrow> 0 | Some v \<Rightarrow> num_val v))
         \<and> (\<forall>g\<in>set after. (case fps g of None \<Rightarrow> 0 | Some v \<Rightarrow> num_val v)
                              \<le> (case fps f of None \<Rightarrow> 0 | Some v \<Rightarrow> num_val v))
         \<and> c = \<lparr> cand_format_id = format_id f,
                  cand_fps = (case fps f of None \<Rightarrow> PyInt 0
                              | Some v \<Rightarrow> if num_val v = 0 then PyInt 0 else v),
                  cand_ext = (case ext f of None \<Rightarrow> Some [] | Some v \<Rightarrow> v),
                  cand_filesize =
                    (if es = [] then None
                     else Some (PyFloat (fl (of_int (sum_list es) / of_nat (length es))))),
                  cand_vcodec = vcodec f \<rparr>
         \<and> tbl (fst (targets ! k)) = Some c
         \<and> (\<forall>sp typed.
               Suc k < length (fst (pick_video_format formats d sp typed)) \<longrightarrow>
               (\<exists>s. sizeof_fmt (cand_filesize c) = Inr s
                  \<and> row_size (fst (pick_video_format formats d sp typed) ! Suc k) = Some s))
         \<and> (\<forall>sp rest.
               4 < length (fst (pick_video_format formats d sp ([''1234'' ! k] # rest))) \<longrightarrow>
               snd (pick_video_format formats d sp ([''1234'' ! k] # rest)) = Inr c)"
proof -
  let ?res = "fst (targets ! k)"
  let ?E = "\<lambda>g. case estimate_size g d of Inl e \<Rightarrow> None | Inr r \<Rightarrow> r"
  note tp = target_pairs [OF assms(1)]
  have ms': "ms = filter (\<lambda>g. vcodec g \<noteq> Some ''none'' \<and> py_str_height (height g) = ?res) formats"
    unfolding assms(2) by (simp add: py_str_height_target [OF tp(1)])
  from better_fold [OF assms(3), of ?E] obtain f before after where
    f: "ms = before @ f # after"
       "\<forall>g\<in>set before. num_val (fps_or_0 g) < num_val (fps_or_0 f)"
       "\<forall>g\<in>set after. num_val (fps_or_0 g) \<le> num_val (fps_or_0 f)"
       "foldl better None (map (\<lambda>g. (g, ?E g)) ms) = Some (new_best f (?E f))"
    by blast
  define c where "c =
    \<lparr> cand_format_id = format_id f,
      cand_fps = (case fps f of None \<Rightarrow> PyInt 0 | Some v \<Rightarrow> if num_val v = 0 then PyInt 0 else v),
      cand_ext = (case ext f of None \<Rightarrow> Some [] | Some v \<Rightarrow> v),
      cand_filesize =
        (if es = [] then None
         else Some (PyFloat (fl (of_int (sum_list es) / of_nat (length es))))),
      cand_vcodec = vcodec f \<rparr>"
  have own: "es = [] \<Longrightarrow> ?E f = None"
    using no_estimate_in_matching [of d ms f] f(1) assms(4) by simp
  have tbl: "tbl ?res = Some c"
    using best_formats_table_at [OF tp(2) assms(5) ms' assms(4)] own
    by (simp add: f(4) c_def new_best_def fps_or_0_fps)
  have shown: "\<forall>sp typed.
     Suc k < length (fst (pick_video_format formats d sp typed)) \<longrightarrow>
     (\<exists>s. sizeof_fmt (cand_filesize c) = Inr s
        \<and> row_size (fst (pick_video_format formats d sp typed) ! Suc k) = Some s)"
  proof (intro allI impI)
    fix sp typed
    assume p: "Suc k < length (fst (pick_video_format formats d sp typed))"
    have "\<exists>s. sizeof_fmt (cand_filesize c) = Inr s \<and> row_size row = Some s"
      if "menu_row sp tbl (Suc k, targets ! k) = Inr row" for row
      using that tbl
      by (cases "targets ! k") (auto simp: menu_row_def split: sum.splits prod.splits)
    from this [OF printed_row [OF assms(1,5) p]]
    show "\<exists>s. sizeof_fmt (cand_filesize c) = Inr s
             \<and> row_size (fst (pick_video_format formats d sp typed) ! Suc k) = Some s" .
  qed
  have returned: "\<forall>sp rest.
     4 < length (fst (pick_video_format formats d sp ([''1234'' ! k] # rest))) \<longrightarrow>
     snd (pick_video_format formats d sp ([''1234'' ! k] # rest)) = Inr c"
    using pick_returns_chosen_candidate [OF assms(1,5) all_rows_printed [OF assms(5)] tbl]
    by blast
  from f(1,2,3) have
    "ms = before @ f # after
     \<and> (\<forall>g\<in>set before. (case fps g of None \<Rightarrow> 0 | Some v \<Rightarrow> num_val v)
                          < (case fps f of None \<Rightarrow> 0 | Some v \<Rightarrow> num_val v))
     \<and> (\<forall>g\<in>set after. (case fps g of None \<Rightarrow> 0 | Some v \<Rightarrow> num_val v)
                          \<le> (case fps f of None \<Rightarrow> 0 | Some v \<Rightarrow> num_val v))"
    by (simp add: fps_or_0_val)
  with c_def tbl shown returned show ?thesis
    by blast
qed

lemmas eval_menu =
  menu_def menu_row_def sizeof_fmt_def time_estimate_strs_def fmt_fps_def fmt_min_sec_def
  fmt_0f_def fmt_1f_def float_floordiv_def float_mod_def c_fmod_def targets_def
  py_str_int_def str_nat.simps digit_char_def truthy_def

lemmas eval_choice =
  py_strip_def py_isspace_def py_int_str_def py_isdecimal_char_def digit_value_def targets_def

theorem best_format_per_resolution_witness:
  "map format_id (filter (\<lambda>g. vcodec g \<noteq> Some ''none'' \<and> height g = Some 1080) example_formats) =
     [Some ''399'', Some ''248'', Some ''137'', Some ''x'']
   \<and> concat (map (\<lambda>g. case estimate_size g (Some (PyInt 152)) of Inr (Some e) \<Rightarrow> [e] | _ \<Rightarrow> [])
        (filter (\<lambda>g. vcodec g \<noteq> Some ''none'' \<and> height g = Some 1080) example_formats)) =
     [1000000, 1900000, 2000000]
   \<and> (case best_formats_table example_formats (Some (PyInt 152)) of
         Inl e \<Rightarrow> None
       | Inr tbl \<Rightarrow> tbl ''1080'') =
     Some \<lparr>cand_format_id = Some ''248'', cand_fps = PyInt 30, cand_ext = Some ''webm'',
           cand_filesize = Some (PyFloat (fl (4900000 / 3))), cand_vcodec = Some ''vp9''\<rparr>
   \<and> fl (4900000 / 3) = 7015113250133333 / 4294967296
   \<and> fst (pick_video_format example_formats (Some (PyInt 152)) (Some 350000) [''9'', ''1'', '' 4 ''])
       ! 4 = Row 4 ''1080p'' ''30'' ''1.6MB'' ''0m 6s'' ''0m 3s''
   \<and> pick_video_format example_formats (Some (PyInt 152)) None [''4''] =
       ([Select_video_resolution, Row_not_available 1 ''   8K'',
         Row 2 ''   4K'' ''60'' ''32.0MB'' ''N/A'' ''N/A'', Row_not_available 3 ''1440p'',
         Row 4 ''1080p'' ''30'' ''1.6MB'' ''N/A'' ''N/A'', Enter_resolution_choice],
        Inr \<lparr>cand_format_id = Some ''248'', cand_fps = PyInt 30, cand_ext = Some ''webm'',
              cand_filesize = Some (PyFloat (fl (4900000 / 3))), cand_vcodec = Some ''vp9''\<rparr>)"
proof -
  let ?d = "Some (PyInt 152)"
  let ?ms = "filter (\<lambda>g. vcodec g \<noteq> Some ''none'' \<and> height g = Some ([4320, 2160, 1440, 1080] ! 3))
               example_formats"
  let ?c = "\<lparr>cand_format_id = Some ''248'', cand_fps = PyInt 30, cand_ext = Some ''webm'',
             cand_filesize = Some (PyFloat (7015113250133333 / 4294967296)),
             cand_vcodec = Some ''vp9''\<rparr>"
  let ?c2 = "\<lparr>cand_format_id = Some ''315'', cand_fps = PyFloat (5994 / 100),
              cand_ext = Some ''webm'', cand_filesize = Some (PyFloat 33505739),
              cand_vcodec = Some ''vp9''\<rparr>"
  have k: "(3::nat) < 4" by simp
  have fl_mean: "fl (4900000 / 3) = 7015113250133333 / 4294967296"
    by (simp add: eval_float)
  have ms: "map format_id ?ms = [Some ''399'', Some ''248'', Some ''137'', Some ''x'']"
    and ne: "?ms \<noteq> []"
    by (simp_all add: example_formats_def)
  have es: "concat (map (\<lambda>g. case estimate_size g ?d of Inr (Some e) \<Rightarrow> [e] | _ \<Rightarrow> []) ?ms) =
              [1000000, 1900000, 2000000]"
    by (simp add: example_formats_def estimate_size_def)
  have "\<exists>tbl. best_formats_table example_formats ?d = Inr tbl
          \<and> tbl ''4320'' = None \<and> tbl ''2160'' = Some ?c2 \<and> tbl ''1440'' = None
          \<and> tbl ''1080'' = Some ?c"
    by (simp add: eval_format eval_float)
  then obtain tbl where
    t: "best_formats_table example_formats ?d = Inr tbl" and
    t0: "tbl ''4320'' = None" and t1: "tbl ''2160'' = Some ?c2" and
    t2: "tbl ''1440'' = None" and t3: "tbl ''1080'' = Some ?c"
    by blast
  have m1: "menu (Some 350000) tbl =
      ([Row_not_available 1 ''   8K'', Row 2 ''   4K'' ''60'' ''32.0MB'' ''2m 23s'' ''1m 3s'',
        Row_not_available 3 ''1440p'', Row 4 ''1080p'' ''30'' ''1.6MB'' ''0m 6s'' ''0m 3s''], None)"
    by (simp add: eval_menu eval_float t0 t1 t2 t3)
  have m2: "menu None tbl =
      ([Row_not_available 1 ''   8K'', Row 2 ''   4K'' ''60'' ''32.0MB'' ''N/A'' ''N/A'',
        Row_not_available 3 ''1440p'', Row 4 ''1080p'' ''30'' ''1.6MB'' ''N/A'' ''N/A''], None)"
    by (simp add: eval_menu eval_float t0 t1 t2 t3)
  have c1: "choice_loop tbl [''4''] = ([Enter_resolution_choice], Inr ?c)"
    by (simp add: eval_choice t3)
  have p1: "fst (pick_video_format example_formats ?d (Some 350000) [''9'', ''1'', '' 4 '']) ! 4 =
              Row 4 ''1080p'' ''30'' ''1.6MB'' ''0m 6s'' ''0m 3s''"
    by (simp add: pick_video_format_trace(1) [OF t] m1)
  have p2: "pick_video_format example_formats ?d None [''4''] =
       ([Select_video_resolution, Row_not_available 1 ''   8K'',
         Row 2 ''   4K'' ''60'' ''32.0MB'' ''N/A'' ''N/A'', Row_not_available 3 ''1440p'',
         Row 4 ''1080p'' ''30'' ''1.6MB'' ''N/A'' ''N/A'', Enter_resolution_choice], Inr ?c)"
    by (simp add: prod_eq_iff pick_video_format_trace [OF t] m2 c1 del: choice_loop.simps)
  from best_format_per_resolution [OF k refl ne refl t] ms es t t3 fl_mean p1 p2
  show ?thesis
    by simp
qed

section \<open>Properties of the merge strategy\<close>

lemma detect_events:
  "Ask_reencode_with_GPU \<notin> set (snd (gpu_supports_nvenc_nvdec env))
   \<and> \<not> list_ex is_run (snd (gpu_supports_nvenc_nvdec env))"
  by (simp add: gpu_supports_nvenc_nvdec_def Let_def split: sum.splits)

lemma reencode_never_asks:
  "Ask_reencode_with_GPU \<notin> set (fst (reencode env nvenc codec v a out))"
  by (simp add: reencode_def Let_def split: option.splits sum.splits)

lemma reencode_launches:
  "video_size env = Inr vs \<Longrightarrow> audio_size env = Inr as \<Longrightarrow>
   Run [FFMPEG_PATH env, ''-y'', ''-i'', v, ''-i'', a,
        ''-c:v'', codec, ''-preset'', ''p1'', ''-c:a'', ''aac'', out]
     \<in> set (fst (reencode env nvenc codec v a out))"
  by (simp add: reencode_def Let_def split: option.splits)

lemma reencode_getsize_fails:
  "video_size env = Inl e \<or> (video_size env = Inr vs \<and> audio_size env = Inl e) \<Longrightarrow>
   reencode env nvenc codec v a out = ([Merging_using nvenc], Inl e)"
  by (auto simp: reencode_def)

text \<open>
  Claim C5. Whenever nvenc encoding is detected and the probed codec of the video is
  \<open>h264\<close> or \<open>hevc\<close>, the merge launches the stream copy, right after the capability
  detection and its own announcement, and never asks for the confirmation of a re-encode.
\<close>

theorem remux_without_prompt:
  assumes "fst (fst (gpu_supports_nvenc_nvdec env))"
    and "probe_video_codec env = Some ''h264'' \<or> probe_video_codec env = Some ''hevc''"
  shows "fst (merge_video_audio env video_path audio_path output_path) =
           snd (gpu_supports_nvenc_nvdec env) @
           [GPU_friendly_codec_remuxing,
            Run [FFMPEG_PATH env, ''-y'', ''-i'', video_path, ''-i'', audio_path,
                 ''-c'', ''copy'', output_path]]
       \<and> Ask_reencode_with_GPU \<notin> set (fst (merge_video_audio env video_path audio_path output_path))"
proof -
  obtain nvenc nvdec evs0 where g: "gpu_supports_nvenc_nvdec env = ((nvenc, nvdec), evs0)"
    by (cases "gpu_supports_nvenc_nvdec env") auto
  from assms(1) g have nvenc by simp
  have "Ask_reencode_with_GPU \<notin> set evs0"
    using detect_events [of env] g by simp
  with \<open>nvenc\<close> assms(2) show ?thesis
    by (auto simp: merge_video_audio_def g Let_def)
qed

theorem remux_without_prompt_witness:
  "fst (fst (gpu_supports_nvenc_nvdec
      \<lparr>encoders_out = Inr ['' V....D h264_nvenc''], decoders_out = Inr ['' V..... h264_cuvid''],
       probe_out = Inr ''h264\<newline>'', typed_answer = Inl EOFError,
       run_result = (\<lambda>cmd. None), video_size = Inr 1000, audio_size = Inr 100,
       FFMPEG_PATH = ''ffmpeg.exe'', FFPROBE_PATH = ''ffprobe.exe''\<rparr>))
   \<and> probe_video_codec
      \<lparr>encoders_out = Inr ['' V....D h264_nvenc''], decoders_out = Inr ['' V..... h264_cuvid''],
       probe_out = Inr ''h264\<newline>'', typed_answer = Inl EOFError,
       run_result = (\<lambda>cmd. None), video_size = Inr 1000, audio_size = Inr 100,
       FFMPEG_PATH = ''ffmpeg.exe'', FFPROBE_PATH = ''ffprobe.exe''\<rparr> = Some ''h264''
   \<and> merge_video_audio
      \<lparr>encoders_out = Inr ['' V....D h264_nvenc''], decoders_out = Inr ['' V..... h264_cuvid''],
       probe_out = Inr ''h264\<newline>'', typed_answer = Inl EOFError,
       run_result = (\<lambda>cmd. None), video_size = Inr 1000, audio_size = Inr 100,
       FFMPEG_PATH = ''ffmpeg.exe'', FFPROBE_PATH = ''ffprobe.exe''\<rparr>
      ''v.mp4'' ''a.m4a'' ''out.mp4'' =
     ([GPU_friendly_codec_remuxing,
       Run [''ffmpeg.exe'', ''-y'', ''-i'', ''v.mp4'', ''-i'', ''a.m4a'', ''-c'', ''copy'', ''out.mp4'']],
      Inr ())"
proof -
  let ?env = "\<lparr>encoders_out = Inr ['' V....D h264_nvenc''], decoders_out = Inr ['' V..... h264_cuvid''],
       probe_out = Inr ''h264\<newline>'', typed_answer = Inl EOFError,
       run_result = (\<lambda>cmd. None), video_size = Inr 1000, audio_size = Inr 100,
       FFMPEG_PATH = ''ffmpeg.exe'', FFPROBE_PATH = ''ffprobe.exe''\<rparr>"
  have g: "gpu_supports_nvenc_nvdec ?env = ((True, True), [])"
    by (simp add: gpu_supports_nvenc_nvdec_def)
  have p: "probe_video_codec ?env = Some ''h264''"
    by (simp add: probe_video_codec_def py_strip_def py_isspace_def)
  have r: "snd (merge_video_audio ?env ''v.mp4'' ''a.m4a'' ''out.mp4'') = Inr ()"
    by (simp add: merge_video_audio_def g p)
  from g have 1: "fst (fst (gpu_supports_nvenc_nvdec ?env))" by simp
  from p have 2: "probe_video_codec ?env = Some ''h264'' \<or> probe_video_codec ?env = Some ''hevc''"
    by simp
  from remux_without_prompt [OF 1 2, of "''v.mp4''" "''a.m4a''" "''out.mp4''"] g p r
  show ?thesis
    by (simp add: prod_eq_iff)
qed

text \<open>
  Claim C6. When nvenc encoding is detected and the probed codec is neither \<open>h264\<close> nor
  \<open>hevc\<close>, the user is asked to confirm a re-encode. An answer that is not \<open>y\<close> once
  stripped and put in lower case aborts the merge: nothing is launched, before or after
  the question, so no output file is made, and the function returns. The answer \<open>y\<close>
  launches the encoder \<open>h264_nvenc\<close>. When nvenc encoding is not detected, the question
  is never asked and the software encoder \<open>libx264\<close> is launched. On both re-encoding
  paths line 202 reads the sizes of the two input files before it launches the encoder:
  the encoder is launched when both can be read, and when \<open>os.path.getsize\<close> raises on
  one of them the merge ends with that exception, with nothing launched.
\<close>

theorem reencode_confirm_or_abort:
  "(fst (fst (gpu_supports_nvenc_nvdec env))
     \<and> probe_video_codec env \<noteq> Some ''h264'' \<and> probe_video_codec env \<noteq> Some ''hevc'' \<longrightarrow>
     Ask_reencode_with_GPU \<in> set (fst (merge_video_audio env video_path audio_path output_path)))
   \<and> (fst (fst (gpu_supports_nvenc_nvdec env))
     \<and> probe_video_codec env \<noteq> Some ''h264'' \<and> probe_video_codec env \<noteq> Some ''hevc''
     \<and> typed_answer env = Inr line \<and> py_lower (py_strip line) \<noteq> ''y'' \<longrightarrow>
     merge_video_audio env video_path audio_path output_path =
       (snd (gpu_supports_nvenc_nvdec env) @ [Ask_reencode_with_GPU, Aborting_merge], Inr ())
     \<and> \<not> list_ex is_run (fst (merge_video_audio env video_path audio_path output_path)))
   \<and> (fst (fst (gpu_supports_nvenc_nvdec env))
     \<and> probe_video_codec env \<noteq> Some ''h264'' \<and> probe_video_codec env \<noteq> Some ''hevc''
     \<and> typed_answer env = Inr line \<and> py_lower (py_strip line) = ''y''
     \<and> video_size env = Inr vs \<and> audio_size env = Inr as \<longrightarrow>
     Run [FFMPEG_PATH env, ''-y'', ''-i'', video_path, ''-i'', audio_path,
          ''-c:v'', ''h264_nvenc'', ''-preset'', ''p1'', ''-c:a'', ''aac'', output_path]
       \<in> set (fst (merge_video_audio env video_path audio_path output_path)))
   \<and> (\<not> fst (fst (gpu_supports_nvenc_nvdec env)) \<longrightarrow>
     Ask_reencode_with_GPU \<notin> set (fst (merge_video_audio env video_path audio_path output_path)))
   \<and> (\<not> fst (fst (gpu_supports_nvenc_nvdec env))
     \<and> video_size env = Inr vs \<and> audio_size env = Inr as \<longrightarrow>
     Run [FFMPEG_PATH env, ''-y'', ''-i'', video_path, ''-i'', audio_path,
          ''-c:v'', ''libx264'', ''-preset'', ''p1'', ''-c:a'', ''aac'', output_path]
       \<in> set (fst (merge_video_audio env video_path audio_path output_path)))
   \<and> ((\<not> fst (fst (gpu_supports_nvenc_nvdec env))
        \<or> (probe_video_codec env \<noteq> Some ''h264'' \<and> probe_video_codec env \<noteq> Some ''hevc''
           \<and> typed_answer env = Inr line \<and> py_lower (py_strip line) = ''y''))
     \<and> (video_size env = Inl e \<or> (video_size env = Inr vs \<and> audio_size env = Inl e)) \<longrightarrow>
     snd (merge_video_audio env video_path audio_path output_path) = Inl e
     \<and> \<not> list_ex is_run (fst (merge_video_audio env video_path audio_path output_path)))"
proof -
  obtain nvenc nvdec evs0 where g: "gpu_supports_nvenc_nvdec env = ((nvenc, nvdec), evs0)"
    by (cases "gpu_supports_nvenc_nvdec env") auto
  have d: "Ask_reencode_with_GPU \<notin> set evs0" "\<not> list_ex is_run evs0"
    using detect_events [of env] g by simp_all
  note a = reencode_never_asks [of env _ _ video_path audio_path output_path]
  note r = reencode_launches [of env vs as video_path audio_path _ output_path]
  note f = reencode_getsize_fails [of env e vs _ _ video_path audio_path output_path]
  have 1: "nvenc \<and> probe_video_codec env \<noteq> Some ''h264'' \<and> probe_video_codec env \<noteq> Some ''hevc'' \<longrightarrow>
     Ask_reencode_with_GPU \<in> set (fst (merge_video_audio env video_path audio_path output_path))"
    by (auto simp: merge_video_audio_def g Let_def split: sum.splits prod.splits)
  have 2: "nvenc \<and> probe_video_codec env \<noteq> Some ''h264'' \<and> probe_video_codec env \<noteq> Some ''hevc''
     \<and> typed_answer env = Inr line \<and> py_lower (py_strip line) \<noteq> ''y'' \<longrightarrow>
     merge_video_audio env video_path audio_path output_path =
       (evs0 @ [Ask_reencode_with_GPU, Aborting_merge], Inr ())
     \<and> \<not> list_ex is_run (fst (merge_video_audio env video_path audio_path output_path))"
    using d(2) by (auto simp: merge_video_audio_def g Let_def)
  have 3: "nvenc \<and> probe_video_codec env \<noteq> Some ''h264'' \<and> probe_video_codec env \<noteq> Some ''hevc''
     \<and> typed_answer env = Inr line \<and> py_lower (py_strip line) = ''y''
     \<and> video_size env = Inr vs \<and> audio_size env = Inr as \<longrightarrow>
     Run [FFMPEG_PATH env, ''-y'', ''-i'', video_path, ''-i'', audio_path,
          ''-c:v'', ''h264_nvenc'', ''-preset'', ''p1'', ''-c:a'', ''aac'', output_path]
       \<in> set (fst (merge_video_audio env video_path audio_path output_path))"
    using r [of "''h264_nvenc''" nvenc]
    by (auto simp: merge_video_audio_def g Let_def split: prod.splits)
  have 4: "\<not> nvenc \<longrightarrow>
     Ask_reencode_with_GPU \<notin> set (fst (merge_video_audio env video_path audio_path output_path))"
    using a [of nvenc "''libx264''"] d(1)
    by (auto simp: merge_video_audio_def g Let_def split: prod.splits)
  have 5: "\<not> nvenc \<and> video_size env = Inr vs \<and> audio_size env = Inr as \<longrightarrow>
     Run [FFMPEG_PATH env, ''-y'', ''-i'', video_path, ''-i'', audio_path,
          ''-c:v'', ''libx264'', ''-preset'', ''p1'', ''-c:a'', ''aac'', output_path]
       \<in> set (fst (merge_video_audio env video_path audio_path output_path))"
    using r [of "''libx264''" nvenc]
    by (auto simp: merge_video_audio_def g Let_def split: prod.splits)
  have 6: "(\<not> nvenc
        \<or> (probe_video_codec env \<noteq> Some ''h264'' \<and> probe_video_codec env \<noteq> Some ''hevc''
           \<and> typed_answer env = Inr line \<and> py_lower (py_strip line) = ''y''))
     \<and> (video_size env = Inl e \<or> (video_size env = Inr vs \<and> audio_size env = Inl e)) \<longrightarrow>
     snd (merge_video_audio env video_path audio_path output_path) = Inl e
     \<and> \<not> list_ex is_run (fst (merge_video_audio env video_path audio_path output_path))"
  proof (intro impI, elim conjE)
    assume c: "\<not> nvenc
        \<or> (probe_video_codec env \<noteq> Some ''h264'' \<and> probe_video_codec env \<noteq> Some ''hevc''
           \<and> typed_answer env = Inr line \<and> py_lower (py_strip line) = ''y'')"
      and s: "video_size env = Inl e \<or> (video_size env = Inr vs \<and> audio_size env = Inl e)"
    have re: "reencode env nv codec video_path audio_path output_path = ([Merging_using nv], Inl e)"
      for nv codec
      using f [OF s] .
    from c d(2) show "snd (merge_video_audio env video_path audio_path output_path) = Inl e
       \<and> \<not> list_ex is_run (fst (merge_video_audio env video_path audio_path output_path))"
      by (cases nvenc) (auto simp: merge_video_audio_def g Let_def re)
  qed
  show ?thesis
    unfolding g fst_conv snd_conv by (intro conjI 1 2 3 4 5 6)
qed

lemmas eval_merge =
  gpu_supports_nvenc_nvdec_def probe_video_codec_def merge_video_audio_def reencode_def
  py_strip_def py_isspace_def py_lower_def py_lower_char_def char_of_def bit_iff_odd_drop_bit

theorem reencode_confirm_or_abort_witness:
  "merge_video_audio
      \<lparr>encoders_out = Inr ['' V....D h264_nvenc''], decoders_out = Inr ['' V..... h264_cuvid''],
       probe_out = Inr ''vp9\<newline>'', typed_answer = Inr ''n'',
       run_result = (\<lambda>cmd. None), video_size = Inr 1000, audio_size = Inr 100,
       FFMPEG_PATH = ''ffmpeg.exe'', FFPROBE_PATH = ''ffprobe.exe''\<rparr>
      ''v.mp4'' ''a.m4a'' ''out.mp4'' =
     ([Ask_reencode_with_GPU, Aborting_merge], Inr ())
   \<and> merge_video_audio
      \<lparr>encoders_out = Inr ['' V....D h264_nvenc''], decoders_out = Inr ['' V..... h264_cuvid''],
       probe_out = Inr ''vp9\<newline>'', typed_answer = Inr '' Y '',
       run_result = (\<lambda>cmd. None), video_size = Inr 1000, audio_size = Inr 100,
       FFMPEG_PATH = ''ffmpeg.exe'', FFPROBE_PATH = ''ffprobe.exe''\<rparr>
      ''v.mp4'' ''a.m4a'' ''out.mp4'' =
     ([Ask_reencode_with_GPU, Merging_using True, Eta_thread_started 1100,
       Run [''ffmpeg.exe'', ''-y'', ''-i'', ''v.mp4'', ''-i'', ''a.m4a'',
            ''-c:v'', ''h264_nvenc'', ''-preset'', ''p1'', ''-c:a'', ''aac'', ''out.mp4''],
       Eta_thread_joined, Merge_completed], Inr ())
   \<and> merge_video_audio
      \<lparr>encoders_out = Inr ['' V..... libx264''], decoders_out = Inr ['' V..... h264''],
       probe_out = Inr ''h264\<newline>'', typed_answer = Inl EOFError,
       run_result = (\<lambda>cmd. None), video_size = Inr 1000, audio_size = Inr 100,
       FFMPEG_PATH = ''ffmpeg.exe'', FFPROBE_PATH = ''ffprobe.exe''\<rparr>
      ''v.mp4'' ''a.m4a'' ''out.mp4'' =
     ([GPU_encoding_not_available_using_CPU, Merging_using False, Eta_thread_started 1100,
       Run [''ffmpeg.exe'', ''-y'', ''-i'', ''v.mp4'', ''-i'', ''a.m4a'',
            ''-c:v'', ''libx264'', ''-preset'', ''p1'', ''-c:a'', ''aac'', ''out.mp4''],
       Eta_thread_joined, Merge_completed], Inr ())
   \<and> merge_video_audio
      \<lparr>encoders_out = Inr ['' V..... libx264''], decoders_out = Inr ['' V..... h264''],
       probe_out = Inr ''vp9\<newline>'', typed_answer = Inl EOFError,
       run_result = (\<lambda>cmd. None), video_size = Inr 1000, audio_size = Inl OSError,
       FFMPEG_PATH = ''ffmpeg.exe'', FFPROBE_PATH = ''ffprobe.exe''\<rparr>
      ''v.mp4'' ''a.m4a'' ''out.mp4'' =
     ([GPU_encoding_not_available_using_CPU, Merging_using False], Inl OSError)"
  using
    reencode_confirm_or_abort [of
      "\<lparr>encoders_out = Inr ['' V....D h264_nvenc''], decoders_out = Inr ['' V..... h264_cuvid''],
       probe_out = Inr ''vp9\<newline>'', typed_answer = Inr ''n'',
       run_result = (\<lambda>cmd. None), video_size = Inr 1000, audio_size = Inr 100,
       FFMPEG_PATH = ''ffmpeg.exe'', FFPROBE_PATH = ''ffprobe.exe''\<rparr>"
      "''v.mp4''" "''a.m4a''" "''out.mp4''" "''n''" 1000 100 OSError]
    reencode_confirm_or_abort [of
      "\<lparr>encoders_out = Inr ['' V....D h264_nvenc''], decoders_out = Inr ['' V..... h264_cuvid''],
       probe_out = Inr ''vp9\<newline>'', typed_answer = Inr '' Y '',
       run_result = (\<lambda>cmd. None), video_size = Inr 1000, audio_size = Inr 100,
       FFMPEG_PATH = ''ffmpeg.exe'', FFPROBE_PATH = ''ffprobe.exe''\<rparr>"
      "''v.mp4''" "''a.m4a''" "''out.mp4''" "'' Y ''" 1000 100 OSError]
    reencode_confirm_or_abort [of
      "\<lparr>encoders_out = Inr ['' V..... libx264''], decoders_out = Inr ['' V..... h264''],
       probe_out = Inr ''h264\<newline>'', typed_answer = Inl EOFError,
       run_result = (\<lambda>cmd. None), video_size = Inr 1000, audio_size = Inr 100,
       FFMPEG_PATH = ''ffmpeg.exe'', FFPROBE_PATH = ''ffprobe.exe''\<rparr>"
      "''v.mp4''" "''a.m4a''" "''out.mp4''" "[]" 1000 100 OSError]
    reencode_confirm_or_abort [of
      "\<lparr>encoders_out = Inr ['' V..... libx264''], decoders_out = Inr ['' V..... h264''],
       probe_out = Inr ''vp9\<newline>'', typed_answer = Inl EOFError,
       run_result = (\<lambda>cmd. None), video_size = Inr 1000, audio_size = Inl OSError,
       FFMPEG_PATH = ''ffmpeg.exe'', FFPROBE_PATH = ''ffprobe.exe''\<rparr>"
      "''v.mp4''" "''a.m4a''" "''out.mp4''" "[]" 1000 100 OSError]
  by (simp add: eval_merge)
section \<open>Properties of the renaming step\<close>

text \<open>
  Claim C8. When the path made of the parent directory and of the base name of the primary
  output file (the first mp4 file of the output directory, or its first wav file when it
  has no mp4 file) already exists, \<open>rename_folder\<close> reports the collision and returns: the
  file system is the one it started from, so the existing directory is not overwritten and
  the output directory keeps its name.
\<close>

theorem rename_skipped_on_collision:
  assumes "os_listdir os fs target_dir = Inr files"
    and "candidates_of files = first # others"
    and "os_path_exists os fs
           (os_path_join os (os_path_dirname os target_dir) (fst (os_path_splitext os first)))"
  shows "rename_folder os fs target_dir =
           (Inr (), fs, [Target_folder_name_already_exists (fst (os_path_splitext os first))])"
  using assms by (simp add: rename_folder_def Let_def)

theorem rename_skipped_on_collision_witness:
  "os_listdir toy_os
      [(''/out/2024-01-01_10-00-00'', [''notes.txt'', ''My Video.MP4'']), (''/out/My Video'', [])]
      ''/out/2024-01-01_10-00-00'' = Inr [''notes.txt'', ''My Video.MP4'']
   \<and> candidates_of [''notes.txt'', ''My Video.MP4''] = [''My Video.MP4'']
   \<and> os_path_exists toy_os
      [(''/out/2024-01-01_10-00-00'', [''notes.txt'', ''My Video.MP4'']), (''/out/My Video'', [])]
      ''/out/My Video''
   \<and> rename_folder toy_os
      [(''/out/2024-01-01_10-00-00'', [''notes.txt'', ''My Video.MP4'']), (''/out/My Video'', [])]
      ''/out/2024-01-01_10-00-00'' =
     (Inr (),
      [(''/out/2024-01-01_10-00-00'', [''notes.txt'', ''My Video.MP4'']), (''/out/My Video'', [])],
      [Target_folder_name_already_exists ''My Video''])"
proof -
  let ?fs = "[(''/out/2024-01-01_10-00-00'', [''notes.txt'', ''My Video.MP4'']), (''/out/My Video'', [])]"
  have l: "os_listdir toy_os ?fs ''/out/2024-01-01_10-00-00'' = Inr [''notes.txt'', ''My Video.MP4'']"
    by (simp add: toy_os_def)
  have c: "candidates_of [''notes.txt'', ''My Video.MP4''] = ''My Video.MP4'' # []"
    by (simp add: candidates_of_def py_lower_def py_lower_char_def char_of_def
        bit_iff_odd_drop_bit suffix_to_prefix)
  have s: "fst (os_path_splitext toy_os ''My Video.MP4'') = ''My Video''"
    by (simp add: toy_os_def toy_splitext_def)
  have j: "os_path_join toy_os (os_path_dirname toy_os ''/out/2024-01-01_10-00-00'') ''My Video'' =
             ''/out/My Video''"
    by (simp add: toy_os_def toy_dirname_def)
  have e: "os_path_exists toy_os ?fs ''/out/My Video''"
    by (simp add: toy_os_def)
  from e have e': "os_path_exists toy_os ?fs
      (os_path_join toy_os (os_path_dirname toy_os ''/out/2024-01-01_10-00-00'')
         (fst (os_path_splitext toy_os ''My Video.MP4'')))"
    by (simp only: s j)
  from rename_skipped_on_collision [OF l c e'] l c e s show ?thesis
    by simp
qed

end
